theory Spec2Isabelle
  imports Complex_Main
begin

section \<open>Failures\<close>

text \<open>
  Every \<^verbatim>\<open>throw std::invalid_argument\<close> of the sources is a value of \<open>error\<close>:
  \<^item> \<open>InvalidDomainSize\<close>: the two throws of the constructor
    (\<^verbatim>\<open>expected m > 1\<close> and \<^verbatim>\<open>expected logm == s + 1\<close>);
  \<^item> \<open>SizeMismatch\<close>: the throw of \<^verbatim>\<open>fft\<close> and \<^verbatim>\<open>inverse_fft\<close>
    (\<^verbatim>\<open>expected a.size() == this->m\<close>);
  \<^item> \<open>UnityRootOrder\<close> and \<open>RadixLength\<close>: the failures of the two collaborators
    \<^verbatim>\<open>unity_root\<close> and \<^verbatim>\<open>basic_radix2_fft\<close>, which the domain lets through;
  \<^item> \<open>OutOfRange\<close>: an unchecked \<^verbatim>\<open>operator[]\<close> beyond the end of a vector
    (undefined behaviour in C++, kept apart from every defined result);
  \<^item> \<open>InverseOfZero\<close>: \<^verbatim>\<open>inversed()\<close> of zero, which the field layer leaves
    undefined (kept apart from every defined result as well).
\<close>

datatype error =
  InvalidDomainSize | SizeMismatch | UnityRootOrder | RadixLength | OutOfRange | InverseOfZero

section \<open>The field and its parameters\<close>

text \<open>
  \<^verbatim>\<open>FieldType::value_type\<close> is a type of class \<open>field\<close>: \<^verbatim>\<open>pow\<close> is \<open>(^)\<close> and
  \<^verbatim>\<open>value_type(n)\<close> is \<open>of_nat n\<close>.

  The compile-time constants \<^verbatim>\<open>fields::arithmetic_params<FieldType>\<close> are the fields
  \<open>s\<close>, \<open>multiplicative_generator\<close> and \<open>root_of_unity\<close> of a record. The record also
  holds what the constructor takes from outside the sources:
  \<^item> \<open>coset_shift\<close> is the value of \<^verbatim>\<open>detail::coset_shift<FieldType>()\<close>, a constant of
    the field;
  \<^item> \<open>complex_double\<close> is the compile-time test
    \<^verbatim>\<open>std::is_same<value_type, std::complex<double>>::value\<close>;
  \<^item> \<open>double_ceil_log2 m\<close> is the value of
    \<^verbatim>\<open>static_cast<std::size_t>(std::ceil(std::log2(m)))\<close> (line 60), which the source
    computes in double precision: a parameter, since floating-point arithmetic is not
    modelled. It need not be the exact ceiling of the logarithm for large \<open>m\<close>;
  \<^item> \<open>float_unity_root n\<close> is what \<^verbatim>\<open>unity_root<FieldType>(n)\<close> returns in the
    floating-point instantiation, which neither the sources nor the specification
    describe: a parameter as well.
\<close>

record 'a arithmetic_params =
  s :: nat
  multiplicative_generator :: 'a
  root_of_unity :: 'a
  coset_shift :: 'a
  complex_double :: bool
  double_ceil_log2 :: "nat \<Rightarrow> nat"
  float_unity_root :: "nat \<Rightarrow> error + 'a"

text \<open>
  Modelled from the spec: \<^verbatim>\<open>value_type::inversed()\<close> (the field type is not among the
  sources). Section 6: "\<^verbatim>\<open>inverse()\<close> (fails/undefined on zero)": the inverse of a
  non-zero element, and a failure of its own on zero.
\<close>

definition inversed :: "'a::field \<Rightarrow> error + 'a" where
  "inversed x = (if x = 0 then Inl InverseOfZero else Inr (inverse x))"

text \<open>
  The exact ceiling of the binary logarithm on the naturals (\<open>ceil_log2_eq\<close> below
  relates it to the real logarithm). It is the test of the radix-2 transform below, and
  the value of \<open>double_ceil_log2\<close> wherever the double computation is exact.
\<close>

function ceil_log2 :: "nat \<Rightarrow> nat" where
  "ceil_log2 n = (if n \<le> 1 then 0 else Suc (ceil_log2 ((n + 1) div 2)))"
  by pat_completeness auto
termination
  by (relation "measure id") auto

declare ceil_log2.simps [simp del]

definition is_power_of_two :: "nat \<Rightarrow> bool" where
  "is_power_of_two n = (n = 2 ^ ceil_log2 n)"

text \<open>\<open>w\<close> has multiplicative order exactly \<open>n\<close>.\<close>

definition primitive_root :: "nat \<Rightarrow> 'a::field \<Rightarrow> bool" where
  "primitive_root n w = (w ^ n = 1 \<and> list_all (\<lambda>k. w ^ k \<noteq> 1) [1..<n])"

text \<open>
  Modelled from the spec: \<^verbatim>\<open>unity_root<FieldType>(n)\<close> (unity_root.hpp is not among the
  sources). Section 6: "UnityRoot(order) -> field element of exact multiplicative order
  order; fails if order does not divide the field's available power-of-two subgroup
  size." The subgroup of size \<open>2 ^ s\<close> is generated by the field's \<open>root_of_unity\<close>;
  its power \<open>2 ^ s div n\<close> has order \<open>n\<close>. In the floating-point instantiation the
  result is the parameter \<open>float_unity_root\<close>.
\<close>

definition unity_root :: "'a::field arithmetic_params \<Rightarrow> nat \<Rightarrow> error + 'a" where
  "unity_root fp n =
     (if complex_double fp then float_unity_root fp n
      else if n dvd 2 ^ s fp then Inr (root_of_unity fp ^ (2 ^ s fp div n))
      else Inl UnityRootOrder)"

text \<open>
  Modelled from the spec: \<^verbatim>\<open>detail::basic_radix2_fft<FieldType>(a, omega)\<close>
  (basic_radix2_domain_aux.hpp is not among the sources). Section 6: "in-place forward/
  inverse FFT over a subgroup of size equal to the vector's length, generated by
  generator; length must be a power of two": entry \<open>i\<close> of the result is the value of
  the polynomial with coefficients \<open>a\<close> at \<open>g ^ i\<close>.
\<close>

definition basic_radix2_fft :: "'a::field list \<Rightarrow> 'a \<Rightarrow> error + 'a list" where
  "basic_radix2_fft a g =
     (if is_power_of_two (length a)
      then Inr (map (\<lambda>i. \<Sum>j\<leftarrow>[0..<length a]. a ! j * g ^ (i * j)) [0..<length a])
      else Inl RadixLength)"

text \<open>
  Modelled from the spec:
  \<^verbatim>\<open>detail::basic_radix2_evaluate_all_lagrange_polynomials<FieldType>(n, t)\<close>
  (basic_radix2_domain_aux.hpp is not among the sources). Section 6: "returns the
  power-of-two domain's Lagrange basis evaluated at t"; the domain is the subgroup
  generated by \<^verbatim>\<open>unity_root<FieldType>(n)\<close>, and the \<open>i\<close>-th basis polynomial is the
  product of \<open>(t - w^j) / (w^i - w^j)\<close> over the other points \<open>w^j\<close>.
\<close>

definition basic_radix2_evaluate_all_lagrange_polynomials ::
  "'a::field arithmetic_params \<Rightarrow> nat \<Rightarrow> 'a \<Rightarrow> error + 'a list" where
  "basic_radix2_evaluate_all_lagrange_polynomials fp n t =
     (case unity_root fp n of
        Inl e \<Rightarrow> Inl e
      | Inr w \<Rightarrow>
          Inr (map (\<lambda>i. \<Prod>j\<leftarrow>filter (\<lambda>j. j \<noteq> i) [0..<n]. (t - w ^ j) / (w ^ i - w ^ j))
                 [0..<n]))"

text \<open>
  Modelled from the spec: the "standard coefficient-form evaluator (an external
  utility)" of Section 8: the value at \<open>x\<close> of the polynomial with coefficients \<open>a\<close>.
\<close>

definition evaluate_polynomial :: "'a::field list \<Rightarrow> 'a \<Rightarrow> 'a" where
  "evaluate_polynomial a x = (\<Sum>k\<leftarrow>[0..<length a]. a ! k * x ^ k)"

section \<open>The extended radix-2 domain\<close>

text \<open>
  The members of \<^verbatim>\<open>class extended_radix2_domain\<close>: \<open>m\<close> is the member of the base
  class \<^verbatim>\<open>evaluation_domain<FieldType>(m)\<close>.
\<close>

record 'a extended_radix2 =
  m :: nat
  small_m :: nat
  omega :: 'a
  shift :: 'a

text \<open>The constructor (lines 55-71).\<close>

definition extended_radix2_domain ::
  "'a::field arithmetic_params \<Rightarrow> nat \<Rightarrow> error + 'a extended_radix2" where
  "extended_radix2_domain fp sz =
     (if sz \<le> 1 then Inl InvalidDomainSize
      else if \<not> complex_double fp \<and> double_ceil_log2 fp sz \<noteq> s fp + 1
           then Inl InvalidDomainSize
      else (case unity_root fp (sz div 2) of
              Inl e \<Rightarrow> Inl e
            | Inr w \<Rightarrow>
                Inr \<lparr>m = sz, small_m = sz div 2, omega = w, shift = coset_shift fp\<rparr>))"

text \<open>
  The size rule shared by \<^verbatim>\<open>fft\<close> and \<^verbatim>\<open>inverse_fft\<close> (lines 74-80 and 105-111):
  a longer vector is refused, a shorter one is resized with zeros.
\<close>

definition resize_to_m :: "'a::field extended_radix2 \<Rightarrow> 'a list \<Rightarrow> error + 'a list" where
  "resize_to_m d a =
     (if length a \<noteq> m d then
        (if length a < m d then Inr (a @ replicate (m d - length a) 0)
         else Inl SizeMismatch)
      else Inr a)"

text \<open>
  The first loop of \<^verbatim>\<open>fft\<close> (lines 82-93): the state is \<open>(a0, a1, shift_i)\<close>.
\<close>

definition fft_mix ::
  "'a::field extended_radix2 \<Rightarrow> 'a list \<Rightarrow> 'a list \<times> 'a list \<times> 'a" where
  "fft_mix d a =
     (let shift_to_small_m = shift d ^ small_m d in
      fold (\<lambda>i (a0, a1, shift_i).
              (a0[i := a ! i + a ! (small_m d + i)],
               a1[i := shift_i * (a ! i + shift_to_small_m * a ! (small_m d + i))],
               shift_i * shift d))
        [0..<small_m d]
        (replicate (small_m d) 0, replicate (small_m d) 0, 1))"

text \<open>The second loop of \<^verbatim>\<open>fft\<close> (lines 98-101): the two halves are written back.\<close>

definition write_back :: "nat \<Rightarrow> 'a list \<Rightarrow> 'a list \<Rightarrow> 'a list \<Rightarrow> 'a list" where
  "write_back n a0 a1 a = fold (\<lambda>i a. (a[i := a0 ! i])[i + n := a1 ! i]) [0..<n] a"

text \<open>
  \<^verbatim>\<open>fft\<close> after the size rule (lines 82-101), on a vector that has \<open>m\<close> entries.
\<close>

definition fft_transform :: "'a::field extended_radix2 \<Rightarrow> 'a list \<Rightarrow> error + 'a list" where
  "fft_transform d a =
     (case fft_mix d a of
        (a0, a1, shift_i) \<Rightarrow>
          (case basic_radix2_fft a0 (omega d) of
             Inl e \<Rightarrow> Inl e
           | Inr a0' \<Rightarrow>
               (case basic_radix2_fft a1 (omega d) of
                  Inl e \<Rightarrow> Inl e
                | Inr a1' \<Rightarrow> Inr (write_back (small_m d) a0' a1' a))))"

text \<open>\<^verbatim>\<open>fft\<close> (lines 73-102).\<close>

definition fft :: "'a::field extended_radix2 \<Rightarrow> 'a list \<Rightarrow> error + 'a list" where
  "fft d a_in =
     (case resize_to_m d a_in of
        Inl e \<Rightarrow> Inl e
      | Inr a \<Rightarrow> fft_transform d a)"

text \<open>
  The loop of \<^verbatim>\<open>inverse_fft\<close> (lines 125-132): the state is the vector and
  \<open>shift_inverse_i\<close>.
\<close>

definition inverse_fft_unmix ::
  "'a::field extended_radix2 \<Rightarrow> 'a \<Rightarrow> 'a \<Rightarrow> 'a list \<Rightarrow> 'a list \<Rightarrow> 'a list \<Rightarrow>
   'a list \<times> 'a" where
  "inverse_fft_unmix d sconst shift_inverse a0 a1 a =
     (let shift_to_small_m = shift d ^ small_m d
      in fold (\<lambda>i (a, shift_inverse_i).
                 ((a[i := sconst * (- shift_to_small_m * a0 ! i + shift_inverse_i * a1 ! i)])
                    [i + small_m d := sconst * (a0 ! i - shift_inverse_i * a1 ! i)],
                  shift_inverse_i * shift_inverse))
           [0..<small_m d] (a, 1))"

text \<open>
  \<^verbatim>\<open>inverse_fft\<close> after the size rule (lines 113-132), in the order of the source:
  the inverse of \<open>omega\<close>, the two transforms, \<open>sconst\<close>, the inverse of \<open>shift\<close>, the
  loop.
\<close>

definition inverse_fft_transform ::
  "'a::field extended_radix2 \<Rightarrow> 'a list \<Rightarrow> error + 'a list" where
  "inverse_fft_transform d a =
     (let a0 = take (small_m d) a;
          a1 = drop (small_m d) a
      in case inversed (omega d) of
           Inl e \<Rightarrow> Inl e
         | Inr omega_inverse \<Rightarrow>
             (case basic_radix2_fft a0 omega_inverse of
                Inl e \<Rightarrow> Inl e
              | Inr a0' \<Rightarrow>
                  (case basic_radix2_fft a1 omega_inverse of
                     Inl e \<Rightarrow> Inl e
                   | Inr a1' \<Rightarrow>
                       (case inversed (of_nat (small_m d) * (1 - shift d ^ small_m d)) of
                          Inl e \<Rightarrow> Inl e
                        | Inr sconst \<Rightarrow>
                            (case inversed (shift d) of
                               Inl e \<Rightarrow> Inl e
                             | Inr shift_inverse \<Rightarrow>
                                 Inr (fst (inverse_fft_unmix d sconst shift_inverse
                                             a0' a1' a)))))))"

text \<open>\<^verbatim>\<open>inverse_fft\<close> (lines 104-133).\<close>

definition inverse_fft :: "'a::field extended_radix2 \<Rightarrow> 'a list \<Rightarrow> error + 'a list" where
  "inverse_fft d a_in =
     (case resize_to_m d a_in of
        Inl e \<Rightarrow> Inl e
      | Inr a \<Rightarrow> inverse_fft_transform d a)"

text \<open>\<^verbatim>\<open>evaluate_all_lagrange_polynomials\<close> (lines 135-155).\<close>

definition evaluate_all_lagrange_polynomials ::
  "'a::field arithmetic_params \<Rightarrow> 'a extended_radix2 \<Rightarrow> 'a \<Rightarrow> error + 'a list" where
  "evaluate_all_lagrange_polynomials fp d t =
     (case basic_radix2_evaluate_all_lagrange_polynomials fp (small_m d) t of
        Inl e \<Rightarrow> Inl e
      | Inr T0 \<Rightarrow>
          (case inversed (shift d) of
             Inl e \<Rightarrow> Inl e
           | Inr shift_inverse \<Rightarrow>
               (case basic_radix2_evaluate_all_lagrange_polynomials fp (small_m d)
                       (t * shift_inverse) of
                  Inl e \<Rightarrow> Inl e
                | Inr T1 \<Rightarrow>
                    (let t_to_small_m = t ^ small_m d;
                         shift_to_small_m = shift d ^ small_m d
                     in case inversed (shift_to_small_m - 1) of
                          Inl e \<Rightarrow> Inl e
                        | Inr one_over_denom \<Rightarrow>
                            (let T0_coeff =
                                   (t_to_small_m - shift_to_small_m) * (- one_over_denom);
                                 T1_coeff = (t_to_small_m - 1) * one_over_denom
                             in Inr (fold (\<lambda>i result.
                                            (result[i := T0 ! i * T0_coeff])
                                              [i + small_m d := T1 ! i * T1_coeff])
                                       [0..<small_m d] (replicate (m d) 0)))))))"

text \<open>\<^verbatim>\<open>get_domain_element\<close> (lines 157-163).\<close>

definition get_domain_element :: "'a::field extended_radix2 \<Rightarrow> nat \<Rightarrow> 'a" where
  "get_domain_element d idx =
     (if idx < small_m d then omega d ^ idx
      else shift d * omega d ^ (idx - small_m d))"

text \<open>\<^verbatim>\<open>compute_vanishing_polynomial\<close> (lines 165-167).\<close>

definition compute_vanishing_polynomial :: "'a::field extended_radix2 \<Rightarrow> 'a \<Rightarrow> 'a" where
  "compute_vanishing_polynomial d t =
     (t ^ small_m d - 1) * (t ^ small_m d - shift d ^ small_m d)"

text \<open>
  \<^verbatim>\<open>add_poly_z\<close> (lines 169-178). The length check is commented out in the source,
  so the three unchecked writes are in range only when \<open>m d < length H\<close>.
\<close>

definition add_poly_z ::
  "'a::field extended_radix2 \<Rightarrow> 'a \<Rightarrow> 'a list \<Rightarrow> error + 'a list" where
  "add_poly_z d coeff H =
     (if m d < length H \<and> small_m d < length H \<and> 0 < length H then
        (let shift_to_small_m = shift d ^ small_m d;
             H1 = H[m d := H ! m d + coeff];
             H2 = H1[small_m d := H1 ! small_m d - coeff * (shift_to_small_m + 1)];
             H3 = H2[0 := H2 ! 0 + coeff * shift_to_small_m]
         in Inr H3)
      else Inl OutOfRange)"

text \<open>
  \<^verbatim>\<open>divide_by_z_on_coset\<close> (lines 180-198). \<open>Z0\<close> and \<open>Z1\<close> are inverted before the
  loop, which reads and writes \<open>P[i]\<close> and \<open>P[i + small_m]\<close> for \<open>i < small_m\<close> without
  a check.
\<close>

definition divide_by_z_on_coset ::
  "'a::field arithmetic_params \<Rightarrow> 'a extended_radix2 \<Rightarrow> 'a list \<Rightarrow> error + 'a list" where
  "divide_by_z_on_coset fp d P =
     (let coset = multiplicative_generator fp;
          coset_to_small_m = coset ^ small_m d;
          shift_to_small_m = shift d ^ small_m d;
          Z0 = (coset_to_small_m - 1) * (coset_to_small_m - shift_to_small_m);
          Z1 = (coset_to_small_m * shift_to_small_m - 1) *
               (coset_to_small_m * shift_to_small_m - shift_to_small_m)
      in case inversed Z0 of
           Inl e \<Rightarrow> Inl e
         | Inr Z0_inverse \<Rightarrow>
             (case inversed Z1 of
                Inl e \<Rightarrow> Inl e
              | Inr Z1_inverse \<Rightarrow>
                  (if 2 * small_m d \<le> length P then
                     Inr (fold (\<lambda>i P. (P[i := P ! i * Z0_inverse])
                                       [i + small_m d := P ! (i + small_m d) * Z1_inverse])
                            [0..<small_m d] P)
                   else Inl OutOfRange)))"

section \<open>Lagrange interpolation from points\<close>

text \<open>
  Modelled from the spec: the default-constructed \<^verbatim>\<open>polynomial<FieldValueType>()\<close>
  (polynomial.hpp is not among the sources) is the "empty/zero polynomial" of
  Section 9: a polynomial is its list of coefficients, the default one has none.
\<close>

type_synonym 'a polynomial = "'a list"

definition polynomial_default :: "'a polynomial" where
  "polynomial_default = []"

text \<open>\<^verbatim>\<open>lagrange_interpolation\<close> (lagrange_interpolation.hpp, lines 39-44).\<close>

definition lagrange_interpolation :: "('a \<times> 'a) list \<Rightarrow> 'a polynomial" where
  "lagrange_interpolation points = polynomial_default"

section \<open>Valid field instances\<close>

text \<open>
  The "valid field instances" of the specification: an exact field (not the floating-point
  approximation) whose \<open>root_of_unity\<close> generates the subgroup of order \<open>2 ^ s\<close>,
  and whose coset shift is non-zero and lies outside that subgroup (Section 4.3:
  \<open>shift ^ small_m = 1\<close> "must never occur given a correctly chosen shift").
\<close>

definition valid_field :: "'a::field arithmetic_params \<Rightarrow> bool" where
  "valid_field fp =
     (\<not> complex_double fp \<and> primitive_root (2 ^ s fp) (root_of_unity fp) \<and>
      coset_shift fp \<noteq> 0 \<and> coset_shift fp ^ (2 ^ s fp) \<noteq> 1)"

section \<open>A concrete field: the integers modulo 29\<close>

text \<open>
  The multiplicative group of the field with 29 elements has order \<open>28 = 2\<^sup>2 * 7\<close>, so
  its 2-adicity is \<open>s = 2\<close>. \<open>2\<close> generates the group, \<open>12 = 2\<^sup>7\<close> has order 4 and
  the coset shift is \<open>4 = 2\<^sup>2\<close>. The concrete domains below are built over it; their
  sizes are at most 16, where the double computation of line 60 is exact, so
  \<open>double_ceil_log2\<close> is \<open>ceil_log2\<close> there. The field is exact, and \<open>float_unity_root\<close>
  is never consulted.
\<close>

typedef gf29 = "{0..<29::int}"
  by (rule exI[of _ 0]) simp

setup_lifting type_definition_gf29

instantiation gf29 :: field
begin

lift_definition zero_gf29 :: gf29 is 0
  by simp

lift_definition one_gf29 :: gf29 is 1
  by simp

lift_definition plus_gf29 :: "gf29 \<Rightarrow> gf29 \<Rightarrow> gf29" is "\<lambda>x y. (x + y) mod 29"
  by simp

lift_definition minus_gf29 :: "gf29 \<Rightarrow> gf29 \<Rightarrow> gf29" is "\<lambda>x y. (x - y) mod 29"
  by simp

lift_definition uminus_gf29 :: "gf29 \<Rightarrow> gf29" is "\<lambda>x. (- x) mod 29"
  by simp

lift_definition times_gf29 :: "gf29 \<Rightarrow> gf29 \<Rightarrow> gf29" is "\<lambda>x y. (x * y) mod 29"
  by simp

lift_definition inverse_gf29 :: "gf29 \<Rightarrow> gf29" is "\<lambda>x. x ^ 27 mod 29"
  by simp

lift_definition divide_gf29 :: "gf29 \<Rightarrow> gf29 \<Rightarrow> gf29" is "\<lambda>x y. (x * (y ^ 27 mod 29)) mod 29"
  by simp

instance
proof
  fix a b c :: gf29
  show "a + b + c = a + (b + c)"
    by transfer (simp add: mod_simps add.assoc)
  show "a + b = b + a"
    by transfer (simp add: add.commute)
  show "0 + a = a"
    by transfer simp
  show "- a + a = 0"
    by transfer (simp add: mod_simps)
  show "a - b = a + - b"
    by transfer (simp add: mod_simps)
  show "a * b * c = a * (b * c)"
    by transfer (simp add: mod_simps mult.assoc)
  show "a * b = b * a"
    by transfer (simp add: mult.commute)
  show "1 * a = a"
    by transfer simp
  show "(a + b) * c = a * c + b * c"
    by transfer (simp add: mod_simps distrib_right)
  show "(0::gf29) \<noteq> 1"
    by transfer simp
  show "a \<noteq> 0 \<Longrightarrow> inverse a * a = 1"
  proof transfer
    fix a :: int
    assume "a \<in> {0..<29}" "a \<noteq> 0"
    then have "a \<in> set [1..28]" by auto
    moreover have "\<forall>x\<in>set [1..28]. x ^ 27 mod 29 * x mod 29 = (1::int)"
      by (simp add: upto_rec1)
    ultimately show "a ^ 27 mod 29 * a mod 29 = 1" by blast
  qed
  show "divide a b = a * inverse b"
    by transfer simp
  show "inverse (0::gf29) = 0"
    by transfer simp
qed

end

lift_definition gf :: "int \<Rightarrow> gf29" is "\<lambda>k. k mod 29"
  by simp

definition gf29_params :: "gf29 arithmetic_params" where
  "gf29_params =
     \<lparr>s = 2, multiplicative_generator = gf 2, root_of_unity = gf 12, coset_shift = gf 4,
      complex_double = False, double_ceil_log2 = ceil_log2,
      float_unity_root = (\<lambda>n. Inl UnityRootOrder)\<rparr>"

text \<open>
  The domain of size 8 that the constructor builds over this field, and the domain of odd
  size 5 that it builds as well (\<open>construct_8\<close> and \<open>construct_5\<close> below).
\<close>

definition d8 :: "gf29 extended_radix2" where
  "d8 = \<lparr>m = 8, small_m = 4, omega = gf 12, shift = gf 4\<rparr>"

definition d5 :: "gf29 extended_radix2" where
  "d5 = \<lparr>m = 5, small_m = 2, omega = gf 28, shift = gf 4\<rparr>"

section \<open>Auxiliary lemmas\<close>

subsection \<open>The loops\<close>

lemma scale_loop_inv:
  "j \<le> n \<Longrightarrow> 2 * n \<le> length P \<Longrightarrow>
   length (fold (\<lambda>i P. (P[i := P ! i * z0])[i + n := P ! (i + n) * z1]) [0..<j] P) = length P \<and>
   (\<forall>k. fold (\<lambda>i P. (P[i := P ! i * z0])[i + n := P ! (i + n) * z1]) [0..<j] P ! k =
        (if k < j then P ! k * z0 else if n \<le> k \<and> k < n + j then P ! k * z1 else P ! k))"
proof (induction j)
  case 0
  then show ?case by auto
next
  case (Suc j)
  then show ?case
    by (auto simp: nth_list_update)
qed

lemma index_loop_inv:
  "j \<le> n \<Longrightarrow> 2 * n \<le> length a \<Longrightarrow>
   length (fold (\<lambda>i a. (a[i := f i])[i + n := g i]) [0..<j] a) = length a \<and>
   (\<forall>k. fold (\<lambda>i a. (a[i := f i])[i + n := g i]) [0..<j] a ! k =
        (if k < j then f k else if n \<le> k \<and> k < n + j then g (k - n) else a ! k))"
proof (induction j)
  case 0
  then show ?case by auto
next
  case (Suc j)
  then show ?case
    by (auto simp: nth_list_update)
qed

lemma write_back_eq:
  assumes "length a0 = n" "length a1 = n" "2 * n \<le> length a"
  shows "write_back n a0 a1 a = a0 @ a1 @ drop (2 * n) a"
proof (rule nth_equalityI)
  show "length (write_back n a0 a1 a) = length (a0 @ a1 @ drop (2 * n) a)"
    using index_loop_inv[of n n a "\<lambda>i. a0 ! i" "\<lambda>i. a1 ! i"] assms by (simp add: write_back_def)
next
  fix k assume "k < length (write_back n a0 a1 a)"
  then show "write_back n a0 a1 a ! k = (a0 @ a1 @ drop (2 * n) a) ! k"
    using index_loop_inv[of n n a "\<lambda>i. a0 ! i" "\<lambda>i. a1 ! i"] assms
    by (auto simp: write_back_def nth_append)
qed

lemma fft_mix_inv:
  "j \<le> n \<Longrightarrow>
   fold (\<lambda>i (a0, a1, shift_i).
              (a0[i := f i], a1[i := shift_i * g i], shift_i * (sh::'a::field)))
        [0..<j] (replicate n 0, replicate n 0, 1) =
   (map (\<lambda>i. if i < j then f i else 0) [0..<n],
    map (\<lambda>i. if i < j then sh ^ i * g i else 0) [0..<n], sh ^ j)"
proof (induction j)
  case 0
  then show ?case by (simp add: map_replicate_const)
next
  case (Suc j)
  then have j: "j < n" by simp
  have 1: "(map (\<lambda>i. if i < j then f i else 0) [0..<n])[j := f j] =
        map (\<lambda>i. if i < Suc j then f i else 0) [0..<n]"
    using j by (auto intro!: nth_equalityI simp: nth_list_update less_Suc_eq)
  have 2: "(map (\<lambda>i. if i < j then sh ^ i * g i else 0) [0..<n])[j := sh ^ j * g j] =
        map (\<lambda>i. if i < Suc j then sh ^ i * g i else 0) [0..<n]"
    using j by (auto intro!: nth_equalityI simp: nth_list_update less_Suc_eq)
  show ?case using Suc 1 2 by simp
qed

lemma fft_mix_eq:
  "fft_mix d a =
     (map (\<lambda>i. a ! i + a ! (small_m d + i)) [0..<small_m d],
      map (\<lambda>i. shift d ^ i * (a ! i + shift d ^ small_m d * a ! (small_m d + i))) [0..<small_m d],
      shift d ^ small_m d)"
  unfolding fft_mix_def Let_def
  using fft_mix_inv[of "small_m d" "small_m d" "\<lambda>i. a ! i + a ! (small_m d + i)"
      "\<lambda>i. a ! i + shift d ^ small_m d * a ! (small_m d + i)" "shift d"]
  by simp

lemma unmix_inv:
  fixes c :: "'a::field"
  assumes "j \<le> n" "2 * n \<le> length a"
  shows "snd (fold (\<lambda>i (a, si).
                 ((a[i := c * (- S * a0 ! i + si * a1 ! i)])
                    [i + n := c * (a0 ! i - si * a1 ! i)], si * sinv))
           [0..<j] (a, 1)) = sinv ^ j \<and>
     length (fst (fold (\<lambda>i (a, si).
                 ((a[i := c * (- S * a0 ! i + si * a1 ! i)])
                    [i + n := c * (a0 ! i - si * a1 ! i)], si * sinv))
           [0..<j] (a, 1))) = length a \<and>
     (\<forall>k. fst (fold (\<lambda>i (a, si).
                 ((a[i := c * (- S * a0 ! i + si * a1 ! i)])
                    [i + n := c * (a0 ! i - si * a1 ! i)], si * sinv))
           [0..<j] (a, 1)) ! k =
        (if k < j then c * (- S * a0 ! k + sinv ^ k * a1 ! k)
         else if n \<le> k \<and> k < n + j
              then c * (a0 ! (k - n) - sinv ^ (k - n) * a1 ! (k - n))
              else a ! k))"
  using assms
proof (induction j)
  case 0
  then show ?case by auto
next
  case (Suc j)
  then show ?case
    by (auto simp: nth_list_update case_prod_beta)
qed

subsection \<open>Roots of unity and the transform of the subgroup\<close>

lemma sum_list_upt_sum: "(\<Sum>j\<leftarrow>[0..<n]. f j) = (\<Sum>j<n. f j)"
  by (simp add: interv_sum_list_conv_sum_set_nat atLeast0LessThan)

lemma sum_split_halves:
  fixes f :: "nat \<Rightarrow> 'a::comm_monoid_add"
  shows "(\<Sum>k<n + n'. f k) = (\<Sum>k<n. f k) + (\<Sum>j<n'. f (n + j))"
  by (induction n') (simp_all add: add.assoc)

lemma power_mod_order:
  fixes w :: "'a::field"
  assumes "w ^ n = 1"
  shows "w ^ k = w ^ (k mod n)"
proof -
  have "w ^ k = w ^ (n * (k div n) + k mod n)" by simp
  also have "\<dots> = (w ^ n) ^ (k div n) * w ^ (k mod n)"
    by (simp only: power_add power_mult)
  finally show ?thesis using assms by simp
qed

lemma primitive_rootD:
  "primitive_root n w \<Longrightarrow> w ^ n = 1"
  "primitive_root n w \<Longrightarrow> 0 < k \<Longrightarrow> k < n \<Longrightarrow> w ^ k \<noteq> 1"
  by (auto simp: primitive_root_def list_all_iff)

lemma primitive_root_nonzero:
  fixes w :: "'a::field"
  assumes "primitive_root n w" "0 < n"
  shows "w \<noteq> 0"
  using assms primitive_rootD(1)[OF assms(1)] by (auto simp: power_0_left)

lemma primitive_root_inj:
  fixes w :: "'a::field"
  assumes pr: "primitive_root n w" and "i < n" "j < n" "w ^ i = w ^ j"
  shows "i = j"
proof -
  have aux: False if "a < b" "b < n" "w ^ a = w ^ b" for a b
  proof -
    have w0: "w \<noteq> 0" using primitive_root_nonzero[OF pr] that by simp
    have "w ^ b = w ^ a * w ^ (b - a)" using that(1) by (simp flip: power_add)
    then have "w ^ a * w ^ (b - a) = w ^ a * 1" using that(3) by simp
    then have "w ^ (b - a) = 1" using w0 by (simp del: mult_cancel_left2 mult_cancel_right2)
    moreover have "0 < b - a" "b - a < n" using that by auto
    ultimately show False using primitive_rootD(2)[OF pr] by blast
  qed
  show ?thesis using aux[of i j] aux[of j i] assms by (cases i j rule: linorder_cases) auto
qed

lemma unit_root_sum:
  fixes x :: "'a::field"
  assumes "x ^ n = 1" "x \<noteq> 1"
  shows "(\<Sum>k<n. x ^ k) = 0"
  using assms by (simp add: geometric_sum)

lemma is_power_of_two_pos: "is_power_of_two n \<Longrightarrow> 0 < n"
  by (metis is_power_of_two_def zero_less_numeral zero_less_power)

lemma basic_radix2_fft_Inr:
  "is_power_of_two (length a) \<Longrightarrow>
   basic_radix2_fft a g = Inr (map (\<lambda>i. \<Sum>j<length a. a ! j * g ^ (i * j)) [0..<length a])"
  by (simp add: basic_radix2_fft_def sum_list_upt_sum)

lemma root_quotient_sum:
  fixes w :: "'a::field"
  assumes pr: "primitive_root n w" and n: "0 < n" and i: "i < n" and j: "j < n"
  shows "(\<Sum>k<n. (w ^ j * inverse w ^ i) ^ k) = (if j = i then of_nat n else 0)"
proof -
  have w0: "w \<noteq> 0" by (rule primitive_root_nonzero[OF pr n])
  show ?thesis
  proof (cases "j = i")
    case True
    then have "w ^ j * inverse w ^ i = 1" using w0 by (simp add: power_inverse)
    then show ?thesis using True by simp
  next
    case False
    have "(w ^ j * inverse w ^ i) ^ n = (w ^ n) ^ j * inverse ((w ^ n) ^ i)"
      by (simp add: power_mult_distrib power_inverse power_mult [symmetric] mult.commute)
    then have 1: "(w ^ j * inverse w ^ i) ^ n = 1"
      using primitive_rootD(1)[OF pr] by simp
    have 2: "w ^ j * inverse w ^ i \<noteq> 1"
    proof
      assume "w ^ j * inverse w ^ i = 1"
      then have "w ^ j = w ^ i" using w0 by (simp add: power_inverse field_simps)
      then show False using primitive_root_inj[OF pr j i] False by simp
    qed
    show ?thesis using unit_root_sum[OF 1 2] False by simp
  qed
qed

lemma dft_inverse:
  fixes w :: "'a::field"
  assumes pr: "primitive_root n w" and n: "0 < n" and i: "i < n"
  shows "(\<Sum>k<n. (\<Sum>j<n. f j * w ^ (k * j)) * inverse w ^ (i * k)) = of_nat n * f i"
proof -
  have pw: "w ^ (k * j) * inverse w ^ (i * k) = (w ^ j * inverse w ^ i) ^ k" for k j
    by (simp add: power_mult_distrib power_mult [symmetric] mult.commute)
  have "(\<Sum>k<n. (\<Sum>j<n. f j * w ^ (k * j)) * inverse w ^ (i * k)) =
        (\<Sum>k<n. \<Sum>j<n. f j * (w ^ j * inverse w ^ i) ^ k)"
    by (simp add: sum_distrib_right mult.assoc pw)
  also have "\<dots> = (\<Sum>j<n. \<Sum>k<n. f j * (w ^ j * inverse w ^ i) ^ k)"
    by (rule sum.swap)
  also have "\<dots> = (\<Sum>j<n. f j * (\<Sum>k<n. (w ^ j * inverse w ^ i) ^ k))"
    by (simp add: sum_distrib_left)
  also have "\<dots> = (\<Sum>j<n. f j * (if j = i then of_nat n else 0))"
    by (rule sum.cong) (simp_all add: root_quotient_sum[OF pr n i])
  also have "\<dots> = (\<Sum>j<n. if j = i then f i * of_nat n else 0)"
    by (rule sum.cong) simp_all
  also have "\<dots> = of_nat n * f i"
    using i by (simp add: sum.delta)
  finally show ?thesis .
qed

lemma basic_radix2_fft_inverse:
  fixes w :: "'a::field"
  assumes pr: "primitive_root (length a) w" and p2: "is_power_of_two (length a)"
    and b: "basic_radix2_fft a w = Inr b"
  shows "basic_radix2_fft b (inverse w) = Inr (map (\<lambda>x. of_nat (length a) * x) a)"
proof -
  let ?n = "length a"
  have n: "0 < ?n" by (rule is_power_of_two_pos[OF p2])
  have b_eq: "b = map (\<lambda>i. \<Sum>j<?n. a ! j * w ^ (i * j)) [0..<?n]"
    using b basic_radix2_fft_Inr[OF p2, of w] by simp
  then have lb: "length b = ?n" by simp
  have "basic_radix2_fft b (inverse w) =
        Inr (map (\<lambda>i. \<Sum>k<?n. b ! k * inverse w ^ (i * k)) [0..<?n])"
    using basic_radix2_fft_Inr[of b "inverse w"] p2 lb by simp
  also have "map (\<lambda>i. \<Sum>k<?n. b ! k * inverse w ^ (i * k)) [0..<?n] =
             map (\<lambda>x. of_nat ?n * x) a"
  proof (rule nth_equalityI)
    show "length (map (\<lambda>i. \<Sum>k<?n. b ! k * inverse w ^ (i * k)) [0..<?n]) =
          length (map (\<lambda>x. of_nat ?n * x) a)" by simp
  next
    fix i assume "i < length (map (\<lambda>i. \<Sum>k<?n. b ! k * inverse w ^ (i * k)) [0..<?n])"
    then have i: "i < ?n" by simp
    have "(\<Sum>k<?n. b ! k * inverse w ^ (i * k)) =
          (\<Sum>k<?n. (\<Sum>j<?n. a ! j * w ^ (k * j)) * inverse w ^ (i * k))"
      by (rule sum.cong) (simp_all add: b_eq)
    also have "\<dots> = of_nat ?n * a ! i"
      by (rule dft_inverse[OF pr n i])
    finally show "map (\<lambda>i. \<Sum>k<?n. b ! k * inverse w ^ (i * k)) [0..<?n] ! i =
                  map (\<lambda>x. of_nat ?n * x) a ! i"
      using i by simp
  qed
  finally show ?thesis .
qed

lemma basic_radix2_fft_map:
  "is_power_of_two n \<Longrightarrow>
   basic_radix2_fft (map f [0..<n]) g = Inr (map (\<lambda>i. \<Sum>j<n. f j * g ^ (i * j)) [0..<n])"
  using basic_radix2_fft_Inr[of "map f [0..<n]" g] by simp

lemma resize_to_m_id: "length a = m d \<Longrightarrow> resize_to_m d a = Inr a"
  by (simp add: resize_to_m_def)

lemma fft_eq:
  fixes d :: "'a::field extended_radix2"
  assumes m: "m d = 2 * small_m d" and p2: "is_power_of_two (small_m d)"
    and la: "length a = m d"
  shows "fft d a =
     Inr (map (\<lambda>i. \<Sum>j<small_m d. (a ! j + a ! (small_m d + j)) * omega d ^ (i * j))
            [0..<small_m d] @
          map (\<lambda>i. \<Sum>j<small_m d.
                 shift d ^ j * (a ! j + shift d ^ small_m d * a ! (small_m d + j)) *
                 omega d ^ (i * j))
            [0..<small_m d])"
proof -
  have dr: "drop (2 * small_m d) a = []" using m la by simp
  show ?thesis
    unfolding fft_def resize_to_m_id[OF la] fft_transform_def fft_mix_eq
    using m la
    by (simp add: basic_radix2_fft_map[OF p2] write_back_eq dr)
qed

lemma evaluate_polynomial_sum:
  "evaluate_polynomial a x = (\<Sum>k<length a. a ! k * x ^ k)"
  by (simp add: evaluate_polynomial_def sum_list_upt_sum)

lemma evaluate_polynomial_halves:
  assumes "length a = 2 * n"
  shows "evaluate_polynomial a x =
        (\<Sum>j<n. a ! j * x ^ j) + (\<Sum>j<n. a ! (n + j) * x ^ (n + j))"
proof -
  have "length a = n + n" using assms by simp
  then show ?thesis
    unfolding evaluate_polynomial_sum
    using sum_split_halves[of "\<lambda>k. a ! k * x ^ k" n n] by simp
qed

lemma subgroup_point_power:
  fixes w :: "'a::field"
  assumes "w ^ n = 1"
  shows "(w ^ i) ^ (n + j) = w ^ (i * j)"
proof -
  have "(w ^ i) ^ (n + j) = (w ^ n) ^ i * w ^ (i * j)"
    by (simp add: power_add power_mult [symmetric] mult.commute)
  then show ?thesis using assms by simp
qed

lemma evaluate_on_subgroup:
  fixes w :: "'a::field"
  assumes la: "length a = 2 * n" and w: "w ^ n = 1"
  shows "evaluate_polynomial a (w ^ i) = (\<Sum>j<n. (a ! j + a ! (n + j)) * w ^ (i * j))"
proof -
  have "evaluate_polynomial a (w ^ i) =
        (\<Sum>j<n. a ! j * w ^ (i * j)) + (\<Sum>j<n. a ! (n + j) * w ^ (i * j))"
    unfolding evaluate_polynomial_halves[OF la] subgroup_point_power[OF w]
    by (simp add: power_mult)
  also have "\<dots> = (\<Sum>j<n. (a ! j + a ! (n + j)) * w ^ (i * j))"
    by (simp add: sum.distrib distrib_right)
  finally show ?thesis .
qed

lemma evaluate_on_coset:
  fixes w :: "'a::field"
  assumes la: "length a = 2 * n" and w: "w ^ n = 1"
  shows "evaluate_polynomial a (sh * w ^ i) =
         (\<Sum>j<n. sh ^ j * (a ! j + sh ^ n * a ! (n + j)) * w ^ (i * j))"
proof -
  have 1: "(sh * w ^ i) ^ j = sh ^ j * w ^ (i * j)" for j
    by (simp add: power_mult_distrib power_mult)
  have 2: "sh ^ (n + j) * w ^ (i * (n + j)) = sh ^ j * sh ^ n * w ^ (i * j)" for j
    using subgroup_point_power[OF w, of i j]
    by (simp only: power_mult power_add[of sh] mult.commute[of "sh ^ n"])
  have "evaluate_polynomial a (sh * w ^ i) =
        (\<Sum>j<n. a ! j * (sh ^ j * w ^ (i * j))) +
        (\<Sum>j<n. a ! (n + j) * (sh ^ j * sh ^ n * w ^ (i * j)))"
    unfolding evaluate_polynomial_halves[OF la] 1 2 ..
  also have "\<dots> = (\<Sum>j<n. sh ^ j * (a ! j + sh ^ n * a ! (n + j)) * w ^ (i * j))"
    unfolding sum.distrib [symmetric]
    by (rule sum.cong) (simp_all add: algebra_simps)
  finally show ?thesis .
qed

lemma fft_evaluates:
  fixes d :: "'a::field extended_radix2"
  assumes m: "m d = 2 * small_m d" and p2: "is_power_of_two (small_m d)"
    and w: "omega d ^ small_m d = 1" and la: "length a = m d" and i: "i < m d"
  shows "\<exists>b. fft d a = Inr b \<and> length b = m d \<and>
             b ! i = evaluate_polynomial a (get_domain_element d i)"
proof -
  have la2: "length a = 2 * small_m d" using m la by simp
  show ?thesis
  proof (cases "i < small_m d")
    case True
    then show ?thesis
      using m by (simp add: fft_eq[OF m p2 la] get_domain_element_def nth_append
          evaluate_on_subgroup[OF la2 w])
  next
    case False
    then have "i - small_m d < small_m d" using i m by simp
    then show ?thesis
      using False m by (simp add: fft_eq[OF m p2 la] get_domain_element_def nth_append
          evaluate_on_coset[OF la2 w])
  qed
qed

lemma of_nat_power_of_two_nonzero:
  fixes w :: "'a::field"
  assumes pr: "primitive_root n w" and p2: "is_power_of_two n"
  shows "(of_nat n :: 'a) \<noteq> 0"
proof
  assume z: "(of_nat n :: 'a) = 0"
  define k where "k = ceil_log2 n"
  have n: "n = 2 ^ k" using p2 by (simp add: is_power_of_two_def k_def)
  have "(2::'a) ^ k = 0" using z n by (metis of_nat_numeral of_nat_power)
  then have two: "(2::'a) = 0" and k: "0 < k" by (auto simp: power_0_left intro: gr0I)
  define y where "y = w ^ (2 ^ (k - 1))"
  have "y * y = w ^ (2 ^ (k - 1) + 2 ^ (k - 1))" by (simp add: y_def power_add)
  also have "2 ^ (k - 1) + 2 ^ (k - 1) = (2::nat) ^ k"
    using k by (cases k) simp_all
  finally have "y * y = 1" using primitive_rootD(1)[OF pr] n by simp
  then have "(y - 1) * (y + 1) = 0" by (simp add: algebra_simps)
  then have "y = 1 \<or> y = - 1" by (auto simp: eq_neg_iff_add_eq_0)
  moreover have "(- 1 :: 'a) = 1" using two by (metis add_eq_0_iff one_add_one)
  ultimately have "y = 1" by auto
  moreover have "0 < (2::nat) ^ (k - 1)" "(2::nat) ^ (k - 1) < n"
    using k n by (auto intro: power_strict_increasing)
  ultimately show False using primitive_rootD(2)[OF pr] by (auto simp: y_def)
qed

lemma unmix_algebra:
  fixes x y :: "'a::field"
  assumes N: "N \<noteq> 0" and S: "S \<noteq> 1" and sh: "sh \<noteq> 0"
  shows "inverse (N * (1 - S)) * (- S * (N * (x + y)) + inverse sh ^ k * (N * (sh ^ k * (x + S * y)))) = x"
    and "inverse (N * (1 - S)) * (N * (x + y) - inverse sh ^ k * (N * (sh ^ k * (x + S * y)))) = y"
proof -
  have c: "inverse sh ^ k * (N * (sh ^ k * z)) = N * z" for z
    using sh by (simp add: power_inverse)
  define D where "D = N * (1 - S)"
  have d: "D \<noteq> 0" using N S by (simp add: D_def)
  have e1: "- S * (N * (x + y)) + N * (x + S * y) = D * x"
    by (simp add: algebra_simps D_def)
  have e2: "N * (x + y) - N * (x + S * y) = D * y"
    by (simp add: algebra_simps D_def)
  show "inverse (N * (1 - S)) * (- S * (N * (x + y)) + inverse sh ^ k * (N * (sh ^ k * (x + S * y)))) = x"
    unfolding c e1 D_def [symmetric] using d by simp
  show "inverse (N * (1 - S)) * (N * (x + y) - inverse sh ^ k * (N * (sh ^ k * (x + S * y)))) = y"
    unfolding c e2 D_def [symmetric] using d by simp
qed

lemma inverse_fft_fft:
  fixes d :: "'a::field extended_radix2"
  assumes m: "m d = 2 * small_m d" and p2: "is_power_of_two (small_m d)"
    and pr: "primitive_root (small_m d) (omega d)"
    and sh0: "shift d \<noteq> 0" and S1: "shift d ^ small_m d \<noteq> 1"
    and la: "length a = m d"
  shows "\<exists>b. fft d a = Inr b \<and> inverse_fft d b = Inr a"
proof -
  define n where "n = small_m d"
  define S where "S = shift d ^ n"
  define f0 where "f0 = (\<lambda>i. a ! i + a ! (n + i))"
  define f1 where "f1 = (\<lambda>i. shift d ^ i * (a ! i + S * a ! (n + i)))"
  define A0 where "A0 = map (\<lambda>i. \<Sum>j<n. f0 j * omega d ^ (i * j)) [0..<n]"
  define A1 where "A1 = map (\<lambda>i. \<Sum>j<n. f1 j * omega d ^ (i * j)) [0..<n]"
  define B0 where "B0 = map (\<lambda>x. of_nat n * x) (map f0 [0..<n])"
  define B1 where "B1 = map (\<lambda>x. of_nat n * x) (map f1 [0..<n])"
  define c where "c = inverse (of_nat n * (1 - S) :: 'a)"
  have p2n: "is_power_of_two n" and prn: "primitive_root n (omega d)"
    using p2 pr by (simp_all add: n_def)
  have N: "(of_nat n :: 'a) \<noteq> 0"
    by (rule of_nat_power_of_two_nonzero[OF prn p2n])
  have fft: "fft d a = Inr (A0 @ A1)"
    using fft_eq[OF m p2 la] by (simp add: A0_def A1_def f0_def f1_def n_def S_def)
  have lA: "length A0 = n" "length A1 = n" by (simp_all add: A0_def A1_def)
  have I0: "basic_radix2_fft A0 (inverse (omega d)) = Inr B0"
    using basic_radix2_fft_inverse[of "map f0 [0..<n]" "omega d" A0]
      basic_radix2_fft_map[OF p2n, of f0 "omega d"] prn p2n
    by (simp add: A0_def B0_def)
  have I1: "basic_radix2_fft A1 (inverse (omega d)) = Inr B1"
    using basic_radix2_fft_inverse[of "map f1 [0..<n]" "omega d" A1]
      basic_radix2_fft_map[OF p2n, of f1 "omega d"] prn p2n
    by (simp add: A1_def B1_def)
  have lb: "length (A0 @ A1) = m d" using lA m by (simp add: n_def)
  have w0: "omega d \<noteq> 0"
    using primitive_root_nonzero[OF prn is_power_of_two_pos[OF p2n]] .
  define R where "R = fst (inverse_fft_unmix d c (inverse (shift d)) B0 B1 (A0 @ A1))"
  have inv: "inverse_fft d (A0 @ A1) = Inr R"
    unfolding inverse_fft_def resize_to_m_id[OF lb] inverse_fft_transform_def R_def
    using lA I0 I1 w0 N S1 sh0
    by (simp add: inversed_def Let_def n_def [symmetric] c_def S_def)
  have inv_loop: "length R = 2 * n \<and>
     (\<forall>k. R ! k =
        (if k < n then c * (- S * B0 ! k + inverse (shift d) ^ k * B1 ! k)
         else if n \<le> k \<and> k < n + n
              then c * (B0 ! (k - n) - inverse (shift d) ^ (k - n) * B1 ! (k - n))
              else (A0 @ A1) ! k))"
    unfolding R_def inverse_fft_unmix_def Let_def n_def [symmetric] S_def [symmetric]
    using unmix_inv[where j = n and n = n and a = "A0 @ A1" and c = c and S = S and ?a0.0 = B0
        and ?a1.0 = B1 and sinv = "inverse (shift d)"] lA
    by (simp add: mult_2)
  have "R = a"
  proof (rule nth_equalityI)
    show "length R = length a"
      using inv_loop la m by (simp add: n_def)
  next
    fix k assume "k < length R"
    then have k: "k < 2 * n" using inv_loop by simp
    show "R ! k = a ! k"
    proof (cases "k < n")
      case True
      then show ?thesis
        using inv_loop unmix_algebra(1)[OF N, of S "shift d" "a ! k" "a ! (n + k)" k] S1 sh0
        by (simp add: B0_def B1_def f0_def f1_def c_def S_def n_def)
    next
      case False
      then have "k - n < n" "n + (k - n) = k" using k by auto
      then show ?thesis
        using False k inv_loop
          unmix_algebra(2)[OF N, of S "shift d" "a ! (k - n)" "a ! k" "k - n"] S1 sh0
        by (simp add: B0_def B1_def f0_def f1_def c_def S_def n_def)
    qed
  qed
  then show ?thesis using fft inv by simp
qed

subsection \<open>The Lagrange basis of the subgroup\<close>

lemma basic_lagrange_length:
  "unity_root fp n = Inr w \<Longrightarrow>
   \<exists>T. basic_radix2_evaluate_all_lagrange_polynomials fp n t = Inr T \<and> length T = n"
  by (simp add: basic_radix2_evaluate_all_lagrange_polynomials_def)

lemma basic_lagrange_delta:
  fixes w :: "'a::field"
  assumes ur: "unity_root fp n = Inr w" and pr: "primitive_root n w" and k: "k < n"
  shows "basic_radix2_evaluate_all_lagrange_polynomials fp n (w ^ k) =
         Inr (map (\<lambda>i. if i = k then 1 else 0) [0..<n])"
proof -
  have "(\<Prod>j\<leftarrow>filter (\<lambda>j. j \<noteq> i) [0..<n]. (w ^ k - w ^ j) / (w ^ i - w ^ j)) =
        (if i = k then 1 else 0)" if i: "i < n" for i
  proof (cases "i = k")
    case True
    have "map (\<lambda>j. (w ^ k - w ^ j) / (w ^ k - w ^ j)) (filter (\<lambda>j. j \<noteq> k) [0..<n]) =
          map (\<lambda>j. 1) (filter (\<lambda>j. j \<noteq> k) [0..<n])"
      using primitive_root_inj[OF pr k] by (intro map_cong) auto
    then show ?thesis using True by (simp add: map_replicate_const)
  next
    case False
    have "k \<in> set (filter (\<lambda>j. j \<noteq> i) [0..<n])" using False k by simp
    then have "(0::'a) \<in> set (map (\<lambda>j. (w ^ k - w ^ j) / (w ^ i - w ^ j))
                        (filter (\<lambda>j. j \<noteq> i) [0..<n]))"
      by (force simp: image_iff)
    then show ?thesis using False by (simp only: prod_list_zero_iff if_False)
  qed
  then have "map (\<lambda>i. \<Prod>j\<leftarrow>filter (\<lambda>j. j \<noteq> i) [0..<n]. (w ^ k - w ^ j) / (w ^ i - w ^ j)) [0..<n] =
        map (\<lambda>i. if i = k then 1 else 0) [0..<n]"
    by (intro map_cong) auto
  then show ?thesis
    using ur by (simp add: basic_radix2_evaluate_all_lagrange_polynomials_def)
qed

lemma evaluate_all_lagrange_eq:
  fixes d :: "'a::field extended_radix2"
  assumes "basic_radix2_evaluate_all_lagrange_polynomials fp (small_m d) t = Inr T0"
    and "basic_radix2_evaluate_all_lagrange_polynomials fp (small_m d)
           (t * inverse (shift d)) = Inr T1"
    and "shift d \<noteq> 0" and "shift d ^ small_m d \<noteq> 1"
  shows "evaluate_all_lagrange_polynomials fp d t =
     Inr (fold (\<lambda>i r. (r[i := T0 ! i * ((t ^ small_m d - shift d ^ small_m d) *
                                        (- inverse (shift d ^ small_m d - 1)))])
                      [i + small_m d := T1 ! i * ((t ^ small_m d - 1) *
                                                   inverse (shift d ^ small_m d - 1))])
            [0..<small_m d] (replicate (m d) 0))"
  using assms by (simp add: evaluate_all_lagrange_polynomials_def Let_def inversed_def)

lemma lagrange_at_domain_point:
  fixes d :: "'a::field extended_radix2"
  assumes m: "m d = 2 * small_m d"
    and ur: "unity_root fp (small_m d) = Inr (omega d)"
    and pr: "primitive_root (small_m d) (omega d)"
    and sh0: "shift d \<noteq> 0" and S1: "shift d ^ small_m d \<noteq> 1"
    and i: "i < m d"
  shows "\<exists>r. evaluate_all_lagrange_polynomials fp d (get_domain_element d i) = Inr r \<and>
             length r = m d \<and> (\<forall>k<m d. r ! k = (if k = i then 1 else 0))"
proof -
  define n where "n = small_m d"
  define S where "S = shift d ^ n"
  have w: "omega d ^ n = 1" using primitive_rootD(1)[OF pr] by (simp add: n_def)
  have wk: "(omega d ^ k) ^ n = 1" for k
    using w by (simp add: power_mult [symmetric] mult.commute[of k] power_mult)
  have S1': "S - 1 \<noteq> 0" using S1 by (simp add: S_def n_def)
  have loop: "length (fold (\<lambda>i r. (r[i := f i])[i + n := g i]) [0..<n] (replicate (m d) 0)) = m d \<and>
     (\<forall>k<m d. fold (\<lambda>i r. (r[i := f i])[i + n := g i]) [0..<n] (replicate (m d) (0::'a)) ! k =
        (if k < n then f k else g (k - n)))" for f g
    using index_loop_inv[of n n "replicate (m d) (0::'a)" f g] m
    by (auto simp: n_def)
  define t where "t = get_domain_element d i"
  show ?thesis
  proof (cases "i < n")
    case True
    have t_eq: "t = omega d ^ i" using True by (simp add: t_def get_domain_element_def n_def)
    have tn: "t ^ n = 1" using wk by (simp add: t_eq)
    obtain T1 where T1: "basic_radix2_evaluate_all_lagrange_polynomials fp n
        (t * inverse (shift d)) = Inr T1"
      using basic_lagrange_length[OF ur] by (auto simp: n_def)
    have T0: "basic_radix2_evaluate_all_lagrange_polynomials fp n t =
         Inr (map (\<lambda>j. if j = i then 1 else 0) [0..<n])"
      using basic_lagrange_delta[OF ur pr, of i] True by (simp add: n_def t_eq)
    have c0: "(t ^ small_m d - shift d ^ small_m d) * (- inverse (shift d ^ small_m d - 1)) = 1"
      using S1' tn by (simp add: field_simps S_def n_def)
    have c1: "(t ^ small_m d - 1) * inverse (shift d ^ small_m d - 1) = 0"
      using tn by (simp add: n_def)
    have "evaluate_all_lagrange_polynomials fp d t =
        Inr (fold (\<lambda>k r. (r[k := map (\<lambda>j. if j = i then 1 else 0) [0..<small_m d] ! k * 1])
                             [k + small_m d := T1 ! k * 0])
               [0..<small_m d] (replicate (m d) 0))"
      by (rule evaluate_all_lagrange_eq[OF T0[unfolded n_def] T1[unfolded n_def] sh0 S1,
            unfolded c0 c1])
    then show ?thesis
      unfolding t_def [symmetric]
      using loop[of "\<lambda>k. map (\<lambda>j. if j = i then 1 else 0) [0..<n] ! k * 1" "\<lambda>k. T1 ! k * 0"] True
      by (auto simp: n_def)
  next
    case False
    then have i': "i - n < n" using i m by (simp add: n_def)
    have t_eq: "t = shift d * omega d ^ (i - n)"
      using False by (simp add: t_def get_domain_element_def n_def)
    have t1: "t * inverse (shift d) = omega d ^ (i - n)"
      using sh0 by (simp add: t_eq)
    have tn: "t ^ n = S"
      using wk by (simp add: power_mult_distrib S_def t_eq)
    obtain T0 where T0: "basic_radix2_evaluate_all_lagrange_polynomials fp n t = Inr T0"
      using basic_lagrange_length[OF ur] by (auto simp: n_def)
    have T1: "basic_radix2_evaluate_all_lagrange_polynomials fp n (t * inverse (shift d)) =
         Inr (map (\<lambda>j. if j = i - n then 1 else 0) [0..<n])"
      using basic_lagrange_delta[OF ur pr, of "i - n"] i' by (simp add: n_def t1)
    have c0: "(t ^ small_m d - shift d ^ small_m d) * (- inverse (shift d ^ small_m d - 1)) = 0"
      using tn by (simp add: S_def n_def)
    have c1: "(t ^ small_m d - 1) * inverse (shift d ^ small_m d - 1) = 1"
      using S1' tn by (simp add: S_def n_def)
    have "evaluate_all_lagrange_polynomials fp d t =
        Inr (fold (\<lambda>k r. (r[k := T0 ! k * 0])
                             [k + small_m d :=
                                map (\<lambda>j. if j = i - small_m d then 1 else 0) [0..<small_m d] ! k * 1])
               [0..<small_m d] (replicate (m d) 0))"
      by (rule evaluate_all_lagrange_eq[OF T0[unfolded n_def] T1[unfolded n_def] sh0 S1,
            unfolded c0 c1])
    then show ?thesis
      unfolding t_def [symmetric]
      using loop[of "\<lambda>k. T0 ! k * 0"
          "\<lambda>k. map (\<lambda>j. if j = i - n then 1 else 0) [0..<n] ! k * 1"] False i' m
      by (auto simp: n_def)
  qed
qed

subsection \<open>What the constructor establishes\<close>


lemma ceil_log2_power: "ceil_log2 (2 ^ j) = j"
proof (induction j)
  case 0
  then show ?case by (simp add: ceil_log2.simps)
next
  case (Suc j)
  have "(1::nat) \<le> 2 ^ j" by simp
  then have nle: "\<not> 2 * (2::nat) ^ j \<le> Suc 0" by linarith
  have half: "(2 * 2 ^ j + 1) div 2 = (2::nat) ^ j" by simp
  have "ceil_log2 (2 * 2 ^ j) = Suc (ceil_log2 ((2 * 2 ^ j + 1) div 2))"
    using nle by (subst ceil_log2.simps) simp
  then show ?case using Suc by (simp only: half power_Suc)
qed

lemma is_power_of_two_power: "is_power_of_two (2 ^ j)"
  by (simp add: is_power_of_two_def ceil_log2_power)

lemma dvd_power_of_two:
  assumes "n dvd (2::nat) ^ k"
  shows "\<exists>j\<le>k. n = 2 ^ j"
  using assms
proof (induction k arbitrary: n)
  case 0
  then show ?case by simp
next
  case (Suc k)
  show ?case
  proof (cases "even n")
    case True
    then obtain n' where n': "n = 2 * n'" by (auto elim: evenE)
    then have "n' dvd 2 ^ k" using Suc.prems by simp
    then obtain j where "j \<le> k" "n' = 2 ^ j" using Suc.IH by blast
    then show ?thesis using n' by (intro exI[of _ "Suc j"]) simp
  next
    case False
    then have "coprime n 2" by simp
    then have "coprime n (2 ^ Suc k)" by (rule coprime_power_right_iff[THEN iffD2, OF disjI1])
    then have "n = 1" using coprime_absorb_left[OF Suc.prems] by simp
    then show ?thesis by (intro exI[of _ 0]) simp
  qed
qed

lemma primitive_rootI:
  "w ^ n = 1 \<Longrightarrow> (\<And>k. 0 < k \<Longrightarrow> k < n \<Longrightarrow> w ^ k \<noteq> 1) \<Longrightarrow> primitive_root n w"
  by (auto simp: primitive_root_def list_all_iff)

lemma primitive_root_power:
  fixes w :: "'a::field"
  assumes pr: "primitive_root (2 ^ k) w" and j: "j \<le> k"
  shows "primitive_root (2 ^ j) (w ^ (2 ^ k div 2 ^ j))"
proof (rule primitive_rootI)
  have q: "(2::nat) ^ k div 2 ^ j = 2 ^ (k - j)" using j by (simp add: power_diff)
  have e: "(2::nat) ^ (k - j) * 2 ^ j = 2 ^ k" using j by (simp flip: power_add)
  show "(w ^ (2 ^ k div 2 ^ j)) ^ 2 ^ j = 1"
    using primitive_rootD(1)[OF pr] by (simp only: q power_mult [symmetric] e)
  fix i :: nat assume i: "0 < i" "i < 2 ^ j"
  have "2 ^ (k - j) * i < (2::nat) ^ (k - j) * 2 ^ j" using i by simp
  then have "0 < 2 ^ (k - j) * i" "2 ^ (k - j) * i < (2::nat) ^ k" using i e by simp_all
  then have "w ^ (2 ^ (k - j) * i) \<noteq> 1" by (rule primitive_rootD(2)[OF pr])
  then show "(w ^ (2 ^ k div 2 ^ j)) ^ i \<noteq> 1" unfolding q power_mult [symmetric] .
qed

lemma unity_root_primitive:
  fixes fp :: "'a::field arithmetic_params"
  assumes nc: "\<not> complex_double fp"
    and pr: "primitive_root (2 ^ s fp) (root_of_unity fp)" and ur: "unity_root fp n = Inr w"
  shows "primitive_root n w \<and> is_power_of_two n"
proof -
  have d: "n dvd 2 ^ s fp" and w: "w = root_of_unity fp ^ (2 ^ s fp div n)"
    using ur nc by (auto simp: unity_root_def split: if_splits)
  obtain j where j: "j \<le> s fp" "n = 2 ^ j" using dvd_power_of_two[OF d] by blast
  show ?thesis
    using primitive_root_power[OF pr j(1)] j(2) w by (simp add: is_power_of_two_power)
qed

lemma constructed_domain:
  fixes fp :: "'a::field arithmetic_params"
  assumes c: "extended_radix2_domain fp sz = Inr d"
  shows "m d = sz \<and> small_m d = sz div 2 \<and> 1 < sz \<and>
         unity_root fp (small_m d) = Inr (omega d) \<and> shift d = coset_shift fp \<and>
         (complex_double fp \<or> double_ceil_log2 fp sz = s fp + 1)"
  using c by (auto simp: extended_radix2_domain_def split: if_splits sum.splits)

lemma constructed_domain_valid:
  fixes fp :: "'a::field arithmetic_params"
  assumes v: "valid_field fp" and c: "extended_radix2_domain fp sz = Inr d"
  shows "primitive_root (small_m d) (omega d) \<and> is_power_of_two (small_m d) \<and>
         shift d \<noteq> 0 \<and> shift d ^ small_m d \<noteq> 1"
proof -
  have ur: "unity_root fp (small_m d) = Inr (omega d)" and sh: "shift d = coset_shift fp"
    using constructed_domain[OF c] by auto
  have nc: "\<not> complex_double fp"
    and pr: "primitive_root (2 ^ s fp) (root_of_unity fp)"
    and sh0: "coset_shift fp \<noteq> 0" and S: "coset_shift fp ^ (2 ^ s fp) \<noteq> 1"
    using v by (simp_all add: valid_field_def)
  have dv: "small_m d dvd 2 ^ s fp"
    using ur nc by (auto simp: unity_root_def split: if_splits)
  have "shift d ^ small_m d \<noteq> 1"
  proof
    assume "shift d ^ small_m d = 1"
    then have "(shift d ^ small_m d) ^ (2 ^ s fp div small_m d) = 1" by simp
    then have "shift d ^ (2 ^ s fp) = 1"
      using dv by (simp only: power_mult [symmetric] dvd_mult_div_cancel)
    then show False using S sh by simp
  qed
  then show ?thesis
    using unity_root_primitive[OF nc pr ur] sh0 sh by simp
qed

lemma constructed_even:
  "extended_radix2_domain fp sz = Inr d \<Longrightarrow> even sz \<Longrightarrow> m d = 2 * small_m d"
  using constructed_domain[of fp sz d] by auto

lemma domain_element_power:
  fixes d :: "'a::field extended_radix2"
  assumes "omega d ^ small_m d = 1"
  shows "get_domain_element d i ^ small_m d = (if i < small_m d then 1 else shift d ^ small_m d)"
proof -
  have "(omega d ^ k) ^ small_m d = 1" for k
    using assms by (simp add: power_mult [symmetric] mult.commute[of k] power_mult)
  then show ?thesis by (simp add: get_domain_element_def power_mult_distrib)
qed

lemma evaluate_polynomial_update:
  fixes c :: "'a::field"
  assumes "k < length H"
  shows "evaluate_polynomial (H[k := H ! k + c]) t = evaluate_polynomial H t + c * t ^ k"
proof -
  have "(\<Sum>j<length H. H[k := H ! k + c] ! j * t ^ j) =
        (\<Sum>j<length H. H ! j * t ^ j + (if j = k then c * t ^ k else 0))"
    by (rule sum.cong) (auto simp: nth_list_update distrib_right)
  then have "evaluate_polynomial (H[k := H ! k + c]) t =
        (\<Sum>j<length H. H ! j * t ^ j + (if j = k then c * t ^ k else 0))"
    by (simp add: evaluate_polynomial_sum)
  also have "\<dots> = evaluate_polynomial H t + c * t ^ k"
    using assms by (simp add: sum.distrib evaluate_polynomial_sum sum.delta)
  finally show ?thesis .
qed

subsection \<open>Computing in the field with 29 elements\<close>

lemma gf_zero: "(0::gf29) = gf 0"
  by transfer simp

lemma gf_one: "(1::gf29) = gf 1"
  by transfer simp

lemma gf_add: "gf a + gf b = gf ((a + b) mod 29)"
  by transfer (simp add: mod_simps)

lemma gf_diff: "gf a - gf b = gf ((a - b) mod 29)"
  by transfer (simp add: mod_simps)

lemma gf_neg: "- gf a = gf ((- a) mod 29)"
  by transfer (simp add: mod_simps)

lemma gf_mult: "gf a * gf b = gf ((a * b) mod 29)"
  by transfer (simp add: mod_simps)

lemma gf_inverse: "inverse (gf a) = gf (a ^ 27 mod 29)"
  by transfer (simp add: mod_simps)

lemma gf_divide: "gf a / gf b = gf ((a * b ^ 27) mod 29)"
  by transfer (simp add: mod_simps)

lemma gf_power: "gf a ^ n = gf (a ^ n mod 29)"
  by (induction n) (simp_all add: gf_one gf_mult mod_simps)

lemma gf_eq: "gf a = gf b \<longleftrightarrow> a mod 29 = b mod 29"
  by transfer simp

lemma gf_mod: "gf (a mod 29) = gf a"
  by transfer simp

lemma gf_of_nat: "of_nat n = gf (int n)"
  by (induction n) (simp_all add: gf_zero gf_one gf_add gf_mod)

lemmas gf29_simps =
  gf_zero gf_one gf_add gf_diff gf_neg gf_mult gf_inverse gf_divide gf_power gf_eq gf_of_nat


lemma valid_gf29: "valid_field gf29_params"
  by (simp add: valid_field_def gf29_params_def primitive_root_def gf29_simps upt_rec)

lemma ceil_log2_values:
  "ceil_log2 5 = 3" "ceil_log2 6 = 3" "ceil_log2 8 = 3" "ceil_log2 4 = 2" "ceil_log2 2 = 1"
  "ceil_log2 3 = 2" "ceil_log2 1 = 0" "ceil_log2 16 = 4"
  by code_simp+

lemma construct_8: "extended_radix2_domain gf29_params 8 = Inr d8"
  by (simp add: extended_radix2_domain_def gf29_params_def d8_def unity_root_def
      ceil_log2_values gf29_simps)

lemma construct_5: "extended_radix2_domain gf29_params 5 = Inr d5"
  by (simp add: extended_radix2_domain_def gf29_params_def d5_def unity_root_def
      ceil_log2_values gf29_simps)


lemma is_power_of_two_values:
  "is_power_of_two (Suc 0)" "is_power_of_two (Suc (Suc 0))"
  "\<not> is_power_of_two (Suc (Suc (Suc 0)))" "is_power_of_two (Suc (Suc (Suc (Suc 0))))"
  "is_power_of_two 1" "is_power_of_two 2" "\<not> is_power_of_two 3" "is_power_of_two 4"
  by code_simp+

lemma replicate_numeral: "replicate (numeral k) x = x # replicate (pred_numeral k) x"
  by (simp add: numeral_eq_Suc)

lemma list_update_numeral: "(x # xs)[numeral k := y] = x # xs[pred_numeral k := y]"
  by (simp add: numeral_eq_Suc)

lemmas eval_simps =
  fft_def fft_transform_def inverse_fft_def inverse_fft_transform_def inversed_def
  resize_to_m_def fft_mix_def write_back_def inverse_fft_unmix_def
  basic_radix2_fft_def is_power_of_two_values evaluate_polynomial_def
  get_domain_element_def compute_vanishing_polynomial_def add_poly_z_def
  divide_by_z_on_coset_def evaluate_all_lagrange_polynomials_def
  basic_radix2_evaluate_all_lagrange_polynomials_def unity_root_def
  upt_rec Let_def replicate_numeral list_update_numeral gf29_simps

lemma upt_4: "[0..<4] = [0, 1, 2, 3]"
  by (simp add: upt_rec)

lemma mix_8: "fft_mix d8 [gf 1, gf 2, gf 3, gf 4, gf 5, gf 6, gf 7, gf 8] =
   ([gf 6, gf 8, gf 10, gf 12], [gf 5, gf 4, gf 10, gf 16], gf 24)"
  by (simp add: d8_def fft_mix_def Let_def upt_4 replicate_numeral list_update_numeral gf29_simps)

lemma dft_8_0: "basic_radix2_fft [gf 6, gf 8, gf 10, gf 12] (gf 12) = Inr [gf 7, gf 6, gf 25, gf 15]"
  by (simp add: basic_radix2_fft_def is_power_of_two_values upt_4 gf29_simps)

lemma dft_8_1: "basic_radix2_fft [gf 5, gf 4, gf 10, gf 16] (gf 12) = Inr [gf 6, gf 25, gf 24, gf 23]"
  by (simp add: basic_radix2_fft_def is_power_of_two_values upt_4 gf29_simps)

lemma fft_8: "fft d8 [gf 1, gf 2, gf 3, gf 4, gf 5, gf 6, gf 7, gf 8] =
     Inr [gf 7, gf 6, gf 25, gf 15, gf 6, gf 25, gf 24, gf 23]"
  by (simp add: fft_def fft_transform_def resize_to_m_def mix_8)
    (simp add: d8_def dft_8_0 dft_8_1 write_back_def upt_4 list_update_numeral)

lemma fft_5: "fft d5 [gf 0, gf 0, gf 0, gf 0, gf 1] = Inr [gf 0, gf 0, gf 0, gf 0, gf 1]"
  by (simp add: d5_def eval_simps)

lemma inverse_fft_5: "inverse_fft d5 [gf 0, gf 0, gf 0, gf 0, gf 1] = Inl RadixLength"
  by (simp add: d5_def eval_simps)

lemma fft_5_unit: "fft d5 [gf 1, gf 0, gf 0, gf 0, gf 0] = Inr [gf 1, gf 1, gf 1, gf 1, gf 0]"
  by (simp add: d5_def eval_simps)

lemma eval_5_unit: "evaluate_polynomial [gf 1, gf 0, gf 0, gf 0, gf 0] (get_domain_element d5 4) = gf 1"
  by (simp add: d5_def eval_simps)

lemma lagrange_5: "evaluate_all_lagrange_polynomials gf29_params d5 (get_domain_element d5 4) =
   Inr [gf 0, gf 0, gf 1, gf 0, gf 0]"
  by (simp add: d5_def gf29_params_def eval_simps)

lemma add_poly_z_5: "add_poly_z d5 (gf 1) [gf 0, gf 0, gf 0, gf 0, gf 0, gf 0] =
    Inr [gf 16, gf 0, gf 12, gf 0, gf 0, gf 1]"
  by (simp add: d5_def eval_simps)

lemma add_poly_z_5_eval:
  "evaluate_polynomial [gf 16, gf 0, gf 12, gf 0, gf 0, gf 1] (gf 2) = gf 9"
  "evaluate_polynomial [gf 0, gf 0, gf 0, gf 0, gf 0, gf 0] (gf 2) +
     gf 1 * compute_vanishing_polynomial d5 (gf 2) = gf 22"
  by (simp_all add: d5_def eval_simps)

section \<open>The claims\<close>

text \<open>
  The constructor accepts every size \<open>sz\<close> whose computed \<open>ceil(log2 sz)\<close> is \<open>s + 1\<close>
  and whose half has a root of unity. Over the field with 29 elements (\<open>s = 2\<close>) these
  are the even size 8 and the odd size 5. The class works on \<open>2 * small_m\<close> entries
  throughout (the loops of \<^verbatim>\<open>fft\<close>, \<^verbatim>\<open>inverse_fft\<close>,
  \<^verbatim>\<open>evaluate_all_lagrange_polynomials\<close> and \<^verbatim>\<open>divide_by_z_on_coset\<close>, the degree of
  \<^verbatim>\<open>compute_vanishing_polynomial\<close>), while its vectors have \<open>m\<close> entries and
  \<^verbatim>\<open>add_poly_z\<close> writes the leading coefficient at index \<open>m\<close>: on an odd size, where
  \<open>m = 2 * small_m + 1\<close>, the two disagree. Claims C1, C2, C3, C5 and C6 hold on the even
  sizes and fail on the odd one, for this one reason.
\<close>

subsection \<open>C1: round trip\<close>

text \<open>
  Over a valid field, for every domain the constructor builds with an even size \<open>sz\<close>
  and every vector \<open>a\<close> of length \<open>sz\<close>, \<open>fft\<close> returns a vector on which \<open>inverse_fft\<close>
  returns exactly \<open>a\<close>.
\<close>

lemma round_trip_on_even_size:
  fixes fp :: "'a::field arithmetic_params"
  assumes "valid_field fp" and "extended_radix2_domain fp sz = Inr d" and "even sz"
    and "length a = sz"
  shows "\<exists>b. fft d a = Inr b \<and> inverse_fft d b = Inr a"
proof -
  have "length a = m d" using constructed_domain[OF assms(2)] assms(4) by simp
  then show ?thesis
    using inverse_fft_fft[OF constructed_even[OF assms(2,3)]]
      constructed_domain_valid[OF assms(1,2)] by blast
qed

text \<open>
  On the size-8 domain: with the computed value of \<open>fft\<close>, the lemma gives the value of
  \<open>inverse_fft\<close>.
\<close>

lemma round_trip_on_size_8:
  "fft d8 [gf 1, gf 2, gf 3, gf 4, gf 5, gf 6, gf 7, gf 8] =
     Inr [gf 7, gf 6, gf 25, gf 15, gf 6, gf 25, gf 24, gf 23] \<and>
   inverse_fft d8 [gf 7, gf 6, gf 25, gf 15, gf 6, gf 25, gf 24, gf 23] =
     Inr [gf 1, gf 2, gf 3, gf 4, gf 5, gf 6, gf 7, gf 8]"
  using round_trip_on_even_size[OF valid_gf29 construct_8,
      of "[gf 1, gf 2, gf 3, gf 4, gf 5, gf 6, gf 7, gf 8]"] fft_8
  by simp

text \<open>
  Claim C1: for every extended radix-2 domain of size \<open>m\<close> and every coefficient vector
  \<open>a\<close> of length \<open>m\<close>, \<open>inverse_fft\<close> applied to the result of \<open>fft\<close> returns \<open>a\<close>. The
  code does not do so on the domain of size 5, which the constructor builds over a valid
  field (\<open>ceil_log2 5 = 3 = s + 1\<close>, \<open>small_m = 2\<close>): \<open>fft\<close> leaves entry 4 untouched, and
  \<open>inverse_fft\<close> then hands the three entries from index 2 on to the radix-2 transform,
  which refuses a length that is not a power of two. (Were the length accepted, entry 0
  of its result, the sum of the three entries, would be 1 and \<open>inverse_fft\<close> would write
  \<open>sconst * 1\<close>, which is not zero, at index 0.)
\<close>

theorem round_trip_fails_on_size_5:
  "valid_field gf29_params \<and> extended_radix2_domain gf29_params 5 = Inr d5 \<and>
   length [gf 0, gf 0, gf 0, gf 0, gf 1] = m d5 \<and>
   fft d5 [gf 0, gf 0, gf 0, gf 0, gf 1] = Inr [gf 0, gf 0, gf 0, gf 0, gf 1] \<and>
   inverse_fft d5 [gf 0, gf 0, gf 0, gf 0, gf 1] = Inl RadixLength"
  using valid_gf29 construct_5 fft_5 inverse_fft_5 by (simp add: d5_def)

subsection \<open>C2: fft evaluates the polynomial on the domain\<close>

text \<open>
  Over a valid field, for every domain built with an even size \<open>sz\<close>, every coefficient
  vector \<open>a\<close> of length \<open>sz\<close> and every \<open>i < sz\<close>, entry \<open>i\<close> of \<open>fft a\<close> is the polynomial
  with coefficients \<open>a\<close> evaluated at \<open>get_domain_element i\<close>, which is \<open>omega ^ i\<close> in the
  first half and \<open>shift * omega ^ (i - small_m)\<close> in the second.
\<close>

lemma fft_evaluates_on_even_size:
  fixes fp :: "'a::field arithmetic_params"
  assumes "valid_field fp" and "extended_radix2_domain fp sz = Inr d" and "even sz"
    and "length a = sz" and "i < sz"
  shows "\<exists>b. fft d a = Inr b \<and> length b = sz \<and>
             b ! i = evaluate_polynomial a (get_domain_element d i) \<and>
             get_domain_element d i =
               (if i < sz div 2 then omega d ^ i else shift d * omega d ^ (i - sz div 2))"
proof -
  have c: "m d = sz" "small_m d = sz div 2" using constructed_domain[OF assms(2)] by simp_all
  have v: "is_power_of_two (small_m d)" "omega d ^ small_m d = 1"
    using constructed_domain_valid[OF assms(1,2)] primitive_rootD(1) by blast+
  show ?thesis
    using fft_evaluates[OF constructed_even[OF assms(2,3)] v, of a i] assms(4,5) c
    by (auto simp: get_domain_element_def)
qed

text \<open>
  On the size-8 domain, at index 6 (the point \<open>4 * 12\<^sup>2 = 25\<close>): with the computed value
  of \<open>fft\<close>, the lemma gives the value of the polynomial there.
\<close>

lemma fft_evaluates_on_size_8:
  "get_domain_element d8 6 = gf 25 \<and>
   evaluate_polynomial [gf 1, gf 2, gf 3, gf 4, gf 5, gf 6, gf 7, gf 8] (gf 25) = gf 24"
  using fft_evaluates_on_even_size[OF valid_gf29 construct_8,
      of "[gf 1, gf 2, gf 3, gf 4, gf 5, gf 6, gf 7, gf 8]" 6] fft_8
  by (simp add: d8_def gf29_simps)

text \<open>
  Claim C2: for every coefficient vector \<open>a\<close> of length \<open>m\<close> and every \<open>i < m\<close>, entry \<open>i\<close>
  of \<open>fft a\<close> is the polynomial with coefficients \<open>a\<close> evaluated at
  \<open>get_domain_element i\<close>. The code does not do so on the domain of size 5: the last entry
  of \<open>fft\<close> is the untouched input entry; for the constant polynomial 1 it is 0, and the
  value of the polynomial at \<open>get_domain_element 4\<close> is 1.
\<close>

theorem fft_misses_last_entry_on_size_5:
  "valid_field gf29_params \<and> extended_radix2_domain gf29_params 5 = Inr d5 \<and>
   length [gf 1, gf 0, gf 0, gf 0, gf 0] = m d5 \<and>
   fft d5 [gf 1, gf 0, gf 0, gf 0, gf 0] = Inr [gf 1, gf 1, gf 1, gf 1, gf 0] \<and>
   [gf 1, gf 1, gf 1, gf 1, gf 0] ! 4 = gf 0 \<and>
   evaluate_polynomial [gf 1, gf 0, gf 0, gf 0, gf 0] (get_domain_element d5 4) = gf 1 \<and>
   gf 0 \<noteq> gf 1"
  using valid_gf29 construct_5 fft_5_unit eval_5_unit by (simp add: gf_eq d5_def)

subsection \<open>C3: the Lagrange basis at the domain points\<close>

text \<open>
  Over a valid field, for every domain built with an even size \<open>sz\<close> and every \<open>i < sz\<close>,
  \<open>evaluate_all_lagrange_polynomials\<close> at \<open>get_domain_element i\<close> returns a vector of
  length \<open>sz\<close> whose entry \<open>i\<close> is one and whose other entries are zero.
\<close>

lemma lagrange_delta_on_even_size:
  fixes fp :: "'a::field arithmetic_params"
  assumes "valid_field fp" and "extended_radix2_domain fp sz = Inr d" and "even sz"
    and "i < sz"
  shows "\<exists>r. evaluate_all_lagrange_polynomials fp d (get_domain_element d i) = Inr r \<and>
             length r = sz \<and> (\<forall>k<sz. r ! k = (if k = i then 1 else 0))"
proof -
  have c: "m d = sz" "unity_root fp (small_m d) = Inr (omega d)"
    using constructed_domain[OF assms(2)] by auto
  have v: "primitive_root (small_m d) (omega d)" "shift d \<noteq> 0" "shift d ^ small_m d \<noteq> 1"
    using constructed_domain_valid[OF assms(1,2)] by blast+
  show ?thesis
    using lagrange_at_domain_point[OF constructed_even[OF assms(2,3)] c(2) v, of i] assms(4) c(1)
    by simp
qed

text \<open>
  Claim C3: for every domain index \<open>i < m\<close>, \<open>evaluate_all_lagrange_polynomials\<close> at
  \<open>get_domain_element i\<close> returns a vector of length \<open>m\<close> whose entry \<open>i\<close> is one and whose
  other entries are zero. The code does not do so on the domain of size 5 at index 4
  (the point \<open>shift * omega\<^sup>2 = shift\<close>, the point of index 2): entry 4 of the result is
  zero and entry 2 is one.
\<close>

theorem lagrange_misses_last_entry_on_size_5:
  "valid_field gf29_params \<and> extended_radix2_domain gf29_params 5 = Inr d5 \<and>
   evaluate_all_lagrange_polynomials gf29_params d5 (get_domain_element d5 4) =
     Inr [gf 0, gf 0, gf 1, gf 0, gf 0] \<and>
   [gf 0, gf 0, gf 1, gf 0, gf 0] ! 4 \<noteq> (1::gf29) \<and>
   [gf 0, gf 0, gf 1, gf 0, gf 0] ! 2 \<noteq> (0::gf29)"
  using valid_gf29 construct_5 lagrange_5 by (simp add: gf29_simps)

subsection \<open>C4: the vanishing polynomial\<close>

text \<open>
  Claim C4: \<open>compute_vanishing_polynomial t\<close> is
  \<open>(t ^ small_m - 1) * (t ^ small_m - shift ^ small_m)\<close>, and when \<open>omega\<close> is a root of
  unity of order \<open>small_m\<close> it is zero at \<open>get_domain_element i\<close> for every index \<open>i\<close>
  (in particular for every \<open>i < m\<close>).
\<close>

theorem vanishing_polynomial_on_domain:
  fixes d :: "'a::field extended_radix2"
  assumes "omega d ^ small_m d = 1"
  shows "compute_vanishing_polynomial d t =
           (t ^ small_m d - 1) * (t ^ small_m d - shift d ^ small_m d) \<and>
         (\<forall>i. compute_vanishing_polynomial d (get_domain_element d i) = 0)"
  by (simp add: compute_vanishing_polynomial_def domain_element_power[OF assms])

text \<open>
  The size-8 domain: the value at the generator 2, and zero at the last point.
\<close>

theorem vanishing_polynomial_on_domain_witness:
  "omega d8 ^ small_m d8 = 1 \<and>
   compute_vanishing_polynomial d8 (gf 2) = (gf 2 ^ 4 - 1) * (gf 2 ^ 4 - gf 4 ^ 4) \<and>
   compute_vanishing_polynomial d8 (gf 2) = gf 25 \<and>
   compute_vanishing_polynomial d8 (get_domain_element d8 7) = 0"
proof -
  have w: "omega d8 ^ small_m d8 = 1" by (simp add: d8_def gf29_simps)
  show ?thesis
    using vanishing_polynomial_on_domain[OF w, of "gf 2"] w
    by (simp add: d8_def gf29_simps)
qed

subsection \<open>C5: division on the coset\<close>

text \<open>
  For every domain with \<open>m = 2 * small_m\<close> and \<open>omega\<close> a root of unity of order
  \<open>small_m\<close>, and every \<open>P\<close> of length \<open>m\<close>: when \<open>Z0\<close> and \<open>Z1\<close>, the vanishing polynomial
  at \<open>g\<close> and at \<open>g * shift\<close> (\<open>g\<close> the multiplicative generator), are not zero,
  \<open>divide_by_z_on_coset\<close> multiplies each of the first \<open>small_m\<close> entries by the inverse
  of \<open>Z0\<close> and each of the remaining \<open>small_m\<close> entries by the inverse of \<open>Z1\<close>; \<open>Z0\<close> is
  the vanishing polynomial at \<open>g * omega ^ i\<close> and \<open>Z1\<close> the one at
  \<open>g * shift * omega ^ i\<close> for every \<open>i < small_m\<close>, so that every entry is divided by the
  vanishing polynomial at \<open>g\<close> times its domain point. When \<open>Z0\<close> or \<open>Z1\<close> is zero the
  source inverts zero.
\<close>

lemma divide_by_z_on_coset_on_even_size:
  fixes d :: "'a::field extended_radix2"
  assumes w: "omega d ^ small_m d = 1" and m: "m d = 2 * small_m d" and lp: "length P = m d"
    and z0: "compute_vanishing_polynomial d (multiplicative_generator fp) \<noteq> 0"
    and z1: "compute_vanishing_polynomial d (multiplicative_generator fp * shift d) \<noteq> 0"
  shows "\<exists>P'. divide_by_z_on_coset fp d P = Inr P' \<and> length P' = length P \<and>
     (\<forall>i<small_m d.
        P' ! i = P ! i * inverse (compute_vanishing_polynomial d (multiplicative_generator fp)) \<and>
        P' ! (small_m d + i) =
          P ! (small_m d + i) *
          inverse (compute_vanishing_polynomial d (multiplicative_generator fp * shift d)) \<and>
        compute_vanishing_polynomial d (multiplicative_generator fp * omega d ^ i) =
          compute_vanishing_polynomial d (multiplicative_generator fp) \<and>
        compute_vanishing_polynomial d (multiplicative_generator fp * shift d * omega d ^ i) =
          compute_vanishing_polynomial d (multiplicative_generator fp * shift d)) \<and>
     (\<forall>k<m d.
        P' ! k =
          P ! k / compute_vanishing_polynomial d
                    (multiplicative_generator fp * get_domain_element d k))"
proof -
  define n where "n = small_m d"
  define g where "g = multiplicative_generator fp"
  define Z0 where "Z0 = compute_vanishing_polynomial d g"
  define Z1 where "Z1 = compute_vanishing_polynomial d (g * shift d)"
  define P' where "P' = fold (\<lambda>i P. (P[i := P ! i * inverse Z0])
                                [i + n := P ! (i + n) * inverse Z1]) [0..<n] P"
  have len: "2 * n \<le> length P" using lp m by (simp add: n_def)
  have e0: "(g ^ n - 1) * (g ^ n - shift d ^ n) = Z0"
    by (simp add: Z0_def compute_vanishing_polynomial_def n_def)
  have e1: "(g ^ n * shift d ^ n - 1) * (g ^ n * shift d ^ n - shift d ^ n) = Z1"
    by (simp add: Z1_def compute_vanishing_polynomial_def n_def power_mult_distrib)
  have nz: "Z0 \<noteq> 0" "Z1 \<noteq> 0" using z0 z1 by (simp_all add: Z0_def Z1_def g_def)
  have res: "divide_by_z_on_coset fp d P = Inr P'"
    unfolding divide_by_z_on_coset_def Let_def g_def [symmetric] n_def [symmetric] e0 e1
    using len nz by (simp add: inversed_def P'_def)
  have inv: "length P' = length P"
    "\<And>k. P' ! k = (if k < n then P ! k * inverse Z0
                  else if n \<le> k \<and> k < n + n then P ! k * inverse Z1 else P ! k)"
    using scale_loop_inv[of n n P "inverse Z0" "inverse Z1"] len by (simp_all add: P'_def)
  have wk: "(omega d ^ i) ^ n = 1" for i
    using w by (simp add: n_def power_mult [symmetric] mult.commute[of i] power_mult)
  have c0: "compute_vanishing_polynomial d (g * omega d ^ i) = Z0" for i
    using wk[of i]
    by (simp add: Z0_def compute_vanishing_polynomial_def power_mult_distrib n_def)
  have c1: "compute_vanishing_polynomial d (g * shift d * omega d ^ i) = Z1" for i
    using wk[of i]
    by (simp add: Z1_def compute_vanishing_polynomial_def power_mult_distrib n_def)
  have g0: "g * get_domain_element d k = g * omega d ^ k" if "k < n" for k
    using that by (simp add: get_domain_element_def n_def)
  have g1: "g * get_domain_element d k = g * shift d * omega d ^ (k - n)" if "\<not> k < n" for k
    using that by (simp add: get_domain_element_def n_def mult.assoc)
  have all: "P' ! k = P ! k / compute_vanishing_polynomial d (g * get_domain_element d k)"
    if "k < m d" for k
  proof (cases "k < n")
    case True
    then show ?thesis by (simp add: inv(2) g0 c0 divide_inverse)
  next
    case False
    then have "n \<le> k \<and> k < n + n" using that m by (simp add: n_def)
    then show ?thesis using False by (simp add: inv(2) g1 c1 divide_inverse)
  qed
  show ?thesis
    unfolding n_def [symmetric] g_def [symmetric] Z0_def [symmetric] Z1_def [symmetric]
    using res inv all by (auto simp: c0 c1)
qed

lemma divide_by_z_on_coset_inverts_zero:
  fixes d :: "'a::field extended_radix2"
  assumes "compute_vanishing_polynomial d (multiplicative_generator fp) = 0 \<or>
           compute_vanishing_polynomial d (multiplicative_generator fp * shift d) = 0"
  shows "divide_by_z_on_coset fp d P = Inl InverseOfZero"
  using assms
  by (auto simp: divide_by_z_on_coset_def Let_def inversed_def compute_vanishing_polynomial_def
      power_mult_distrib)

text \<open>
  Claim C5: for every vector \<open>P\<close> of length \<open>m\<close>, \<open>divide_by_z_on_coset\<close> multiplies each
  of the first \<open>small_m\<close> entries by the inverse of \<open>Z0\<close> and each of the remaining entries
  by the inverse of \<open>Z1\<close>, so that each entry is divided by the vanishing polynomial at
  \<open>g\<close> times the corresponding domain point. The code does not do so on the domain of size
  5: \<open>Z0 = 22\<close> and \<open>Z1 = 8\<close> are not zero, entries 0 to 3 are divided, and entry 4, whose
  point \<open>g * get_domain_element 4\<close> has the vanishing polynomial 8, is left as it is: 5
  where 5 divided by 8 is 26.
\<close>

theorem divide_by_z_on_coset_misses_last_entry_on_size_5:
  "extended_radix2_domain gf29_params 5 = Inr d5 \<and>
   length [gf 1, gf 2, gf 3, gf 4, gf 5] = m d5 \<and>
   compute_vanishing_polynomial d5 (multiplicative_generator gf29_params) = gf 22 \<and>
   compute_vanishing_polynomial d5 (multiplicative_generator gf29_params * shift d5) = gf 8 \<and>
   divide_by_z_on_coset gf29_params d5 [gf 1, gf 2, gf 3, gf 4, gf 5] =
     Inr [gf 4, gf 8, gf 4, gf 15, gf 5] \<and>
   compute_vanishing_polynomial d5
     (multiplicative_generator gf29_params * get_domain_element d5 4) = gf 8 \<and>
   [gf 1, gf 2, gf 3, gf 4, gf 5] ! 4 / gf 8 = gf 26 \<and>
   [gf 4, gf 8, gf 4, gf 15, gf 5] ! 4 \<noteq> gf 26"
  using construct_5 by (simp add: d5_def gf29_params_def eval_simps)

subsection \<open>C6: adding the vanishing polynomial\<close>

text \<open>
  For every domain the constructor builds, every \<open>H\<close> of length \<open>sz + 1\<close> and every
  \<open>coeff\<close>, \<open>add_poly_z\<close> adds \<open>coeff\<close> to \<open>H[sz]\<close>, subtracts
  \<open>coeff * (shift ^ small_m + 1)\<close> from \<open>H[small_m]\<close>, adds \<open>coeff * shift ^ small_m\<close> to
  \<open>H[0]\<close> and leaves every other entry unchanged.
\<close>

lemma add_poly_z_updates:
  fixes fp :: "'a::field arithmetic_params"
  assumes c: "extended_radix2_domain fp sz = Inr d" and lh: "length H = sz + 1"
  shows "\<exists>H'. add_poly_z d coeff H = Inr H' \<and> length H' = length H \<and>
     H' ! sz = H ! sz + coeff \<and>
     H' ! (sz div 2) = H ! (sz div 2) - coeff * (shift d ^ (sz div 2) + 1) \<and>
     H' ! 0 = H ! 0 + coeff * shift d ^ (sz div 2) \<and>
     (\<forall>k. k \<noteq> 0 \<and> k \<noteq> sz div 2 \<and> k \<noteq> sz \<longrightarrow> H' ! k = H ! k) \<and>
     (\<forall>t. evaluate_polynomial H' t =
          evaluate_polynomial H t +
          coeff * (t ^ sz - (shift d ^ (sz div 2) + 1) * t ^ (sz div 2) + shift d ^ (sz div 2)))"
proof -
  define n where "n = sz div 2"
  define S where "S = shift d ^ n"
  have d: "m d = sz" "small_m d = n" "1 < sz"
    using constructed_domain[OF c] by (auto simp: n_def)
  have n: "0 < n" "n < sz" using d(3) by (auto simp: n_def)
  define H1 where "H1 = H[sz := H ! sz + coeff]"
  define H2 where "H2 = H1[n := H1 ! n + - (coeff * (S + 1))]"
  define H3 where "H3 = H2[0 := H2 ! 0 + coeff * S]"
  have res: "add_poly_z d coeff H = Inr H3"
    using lh n by (simp add: add_poly_z_def d Let_def H1_def H2_def H3_def S_def)
  have l: "length H1 = sz + 1" "length H2 = sz + 1" "length H3 = sz + 1"
    using lh by (simp_all add: H1_def H2_def H3_def)
  have e1: "evaluate_polynomial H1 t = evaluate_polynomial H t + coeff * t ^ sz" for t
    unfolding H1_def using lh by (intro evaluate_polynomial_update) simp
  have e2: "evaluate_polynomial H2 t = evaluate_polynomial H1 t + - (coeff * (S + 1)) * t ^ n"
    for t
    unfolding H2_def using l n by (intro evaluate_polynomial_update) simp
  have e3: "evaluate_polynomial H3 t = evaluate_polynomial H2 t + coeff * S * t ^ 0" for t
    unfolding H3_def using l by (intro evaluate_polynomial_update) simp
  have "evaluate_polynomial H3 t =
        evaluate_polynomial H t + coeff * (t ^ sz - (S + 1) * t ^ n + S)" for t
    unfolding e3 e2 e1 by (simp add: algebra_simps)
  moreover have "H3 ! sz = H ! sz + coeff" "H3 ! n = H ! n - coeff * (S + 1)"
    "H3 ! 0 = H ! 0 + coeff * S"
    "\<And>k. k \<noteq> 0 \<and> k \<noteq> n \<and> k \<noteq> sz \<longrightarrow> H3 ! k = H ! k"
    using lh n by (simp_all add: H3_def H2_def H1_def nth_list_update)
  ultimately show ?thesis
    unfolding n_def [symmetric] S_def [symmetric]
    using res l(3) lh by simp
qed

text \<open>
  When the size is even, the polynomial added is \<open>coeff\<close> times the closed form of
  \<open>compute_vanishing_polynomial\<close>.
\<close>

lemma add_poly_z_on_even_size:
  fixes fp :: "'a::field arithmetic_params"
  assumes c: "extended_radix2_domain fp sz = Inr d" and ev: "even sz"
    and lh: "length H = sz + 1"
  shows "\<exists>H'. add_poly_z d coeff H = Inr H' \<and>
     (\<forall>t. evaluate_polynomial H' t =
          evaluate_polynomial H t + coeff * compute_vanishing_polynomial d t)"
proof -
  define n where "n = sz div 2"
  have d: "small_m d = n" using constructed_domain[OF c] by (auto simp: n_def)
  have sz: "sz = n + n" using ev by (auto simp: n_def elim: evenE)
  have v: "compute_vanishing_polynomial d t =
        t ^ sz - (shift d ^ n + 1) * t ^ n + shift d ^ n" for t
    by (subst sz) (simp add: compute_vanishing_polynomial_def d power_add algebra_simps)
  show ?thesis
    using add_poly_z_updates[OF c lh, of coeff] by (auto simp: v n_def)
qed

text \<open>
  Claim C6: for every \<open>H\<close> of length \<open>m + 1\<close> and every \<open>coeff\<close>, \<open>add_poly_z\<close> adds \<open>coeff\<close>
  times the coefficient vector of \<open>x ^ m - (shift ^ small_m + 1) * x ^ small_m +
  shift ^ small_m\<close>, the algebraic expansion of the closed form returned by
  \<open>compute_vanishing_polynomial\<close>. On the domain of size 5 the three entries are updated
  as the claim says, but the polynomial added,
  \<open>x\<^sup>5 - (shift\<^sup>2 + 1) * x\<^sup>2 + shift\<^sup>2\<close>, is not the expansion of the closed form
  \<open>(x\<^sup>2 - 1) * (x\<^sup>2 - shift\<^sup>2)\<close>, whose degree is \<open>2 * small_m = 4\<close>: at \<open>x = 2\<close> the
  first is 9 and the second is 22.
\<close>

theorem add_poly_z_misses_closed_form_on_size_5:
  "extended_radix2_domain gf29_params 5 = Inr d5 \<and>
   length [gf 0, gf 0, gf 0, gf 0, gf 0, gf 0] = m d5 + 1 \<and>
   add_poly_z d5 (gf 1) [gf 0, gf 0, gf 0, gf 0, gf 0, gf 0] =
     Inr [gf 16, gf 0, gf 12, gf 0, gf 0, gf 1] \<and>
   evaluate_polynomial [gf 16, gf 0, gf 12, gf 0, gf 0, gf 1] (gf 2) = gf 9 \<and>
   evaluate_polynomial [gf 0, gf 0, gf 0, gf 0, gf 0, gf 0] (gf 2) +
     gf 1 * compute_vanishing_polynomial d5 (gf 2) = gf 22 \<and>
   gf 9 \<noteq> gf 22"
  using construct_5 add_poly_z_5 add_poly_z_5_eval by (simp add: gf_eq d5_def)

subsection \<open>C7: construction\<close>




subsection \<open>C8: the size rule of fft and inverse_fft\<close>

lemma basic_radix2_fft_failure: "basic_radix2_fft a g = Inl e \<Longrightarrow> e = RadixLength"
  by (simp add: basic_radix2_fft_def split: if_splits)

lemma fft_transform_no_size_mismatch: "fft_transform d a \<noteq> Inl SizeMismatch"
  by (auto simp: fft_transform_def split: prod.splits sum.splits
      dest: basic_radix2_fft_failure)

lemma inverse_fft_transform_no_size_mismatch: "inverse_fft_transform d a \<noteq> Inl SizeMismatch"
  by (auto simp: inverse_fft_transform_def Let_def inversed_def split: sum.splits if_splits
      dest: basic_radix2_fft_failure)

lemma mix_8_padded: "fft_mix d8 [gf 1, gf 2, gf 3, gf 4, gf 5, gf 6, gf 7, gf 0] =
   ([gf 6, gf 8, gf 10, gf 4], [gf 5, gf 4, gf 10, gf 24], gf 24)"
  by (simp add: d8_def fft_mix_def Let_def upt_4 replicate_numeral list_update_numeral gf29_simps)

lemma dft_8_2: "basic_radix2_fft [gf 6, gf 8, gf 10, gf 4] (gf 12) = Inr [gf 28, gf 15, gf 4, gf 6]"
  by (simp add: basic_radix2_fft_def is_power_of_two_values upt_4 gf29_simps)

lemma dft_8_3: "basic_radix2_fft [gf 5, gf 4, gf 10, gf 24] (gf 12) = Inr [gf 14, gf 16, gf 16, gf 3]"
  by (simp add: basic_radix2_fft_def is_power_of_two_values upt_4 gf29_simps)

lemma fft_transform_8_padded:
  "fft_transform d8 [gf 1, gf 2, gf 3, gf 4, gf 5, gf 6, gf 7, gf 0] =
     Inr [gf 28, gf 15, gf 4, gf 6, gf 14, gf 16, gf 16, gf 3]"
  by (simp add: fft_transform_def mix_8_padded)
    (simp add: d8_def dft_8_2 dft_8_3 write_back_def upt_4 list_update_numeral)

text \<open>
  Claim C8: a vector longer than \<open>m\<close> makes \<open>fft\<close> and \<open>inverse_fft\<close> fail with
  \<open>SizeMismatch\<close>; a shorter one is accepted and padded with zeros to length \<open>m\<close>, and
  the transform is then applied to the padded vector, so that the result is the result on
  the padded vector, in particular for a vector of length \<open>m - 1\<close>; \<open>SizeMismatch\<close> is
  the result for longer vectors only.
\<close>

theorem size_rule:
  fixes d :: "'a::field extended_radix2"
  shows "(m d < length a \<longrightarrow>
            fft d a = Inl SizeMismatch \<and> inverse_fft d a = Inl SizeMismatch) \<and>
         (length a \<le> m d \<longrightarrow>
            resize_to_m d a = Inr (a @ replicate (m d - length a) 0) \<and>
            fft d a = fft_transform d (a @ replicate (m d - length a) 0) \<and>
            inverse_fft d a = inverse_fft_transform d (a @ replicate (m d - length a) 0) \<and>
            fft d a = fft d (a @ replicate (m d - length a) 0) \<and>
            inverse_fft d a = inverse_fft d (a @ replicate (m d - length a) 0) \<and>
            fft d a \<noteq> Inl SizeMismatch \<and> inverse_fft d a \<noteq> Inl SizeMismatch) \<and>
         (length a + 1 = m d \<longrightarrow>
            fft d a = fft_transform d (a @ [0]) \<and>
            inverse_fft d a = inverse_fft_transform d (a @ [0]) \<and>
            fft d a = fft d (a @ [0]) \<and> inverse_fft d a = inverse_fft d (a @ [0]))"
proof -
  have 1: "resize_to_m d a = Inl SizeMismatch" if "m d < length a"
    using that by (simp add: resize_to_m_def)
  have 2: "resize_to_m d a = Inr (a @ replicate (m d - length a) 0)" if "length a \<le> m d"
    using that by (simp add: resize_to_m_def)
  have 3: "a @ replicate (m d - length a) 0 = a @ [0]" if "length a + 1 = m d"
  proof -
    have "m d - length a = Suc 0" using that by simp
    then show ?thesis by simp
  qed
  have 4: "fft d a = fft_transform d (a @ replicate (m d - length a) 0)"
    "inverse_fft d a = inverse_fft_transform d (a @ replicate (m d - length a) 0)"
    if "length a \<le> m d"
    by (simp_all add: fft_def inverse_fft_def 2[OF that])
  have 5: "fft d b = fft_transform d b" "inverse_fft d b = inverse_fft_transform d b"
    if "length b = m d" for b
    using that by (simp_all add: fft_def inverse_fft_def resize_to_m_def)
  have 6: "fft d a = fft d (a @ replicate (m d - length a) 0)"
    "inverse_fft d a = inverse_fft d (a @ replicate (m d - length a) 0)"
    if "length a \<le> m d"
    using that 4[OF that] 5[of "a @ replicate (m d - length a) 0"] by simp_all
  show ?thesis
  proof (intro conjI impI)
    assume "m d < length a"
    then show "fft d a = Inl SizeMismatch" "inverse_fft d a = Inl SizeMismatch"
      by (simp_all add: fft_def inverse_fft_def 1)
  next
    assume le: "length a \<le> m d"
    show "resize_to_m d a = Inr (a @ replicate (m d - length a) 0)" by (rule 2[OF le])
    show "fft d a = fft_transform d (a @ replicate (m d - length a) 0)"
      "inverse_fft d a = inverse_fft_transform d (a @ replicate (m d - length a) 0)"
      by (rule 4[OF le])+
    show "fft d a = fft d (a @ replicate (m d - length a) 0)"
      "inverse_fft d a = inverse_fft d (a @ replicate (m d - length a) 0)"
      by (rule 6[OF le])+
    show "fft d a \<noteq> Inl SizeMismatch" "inverse_fft d a \<noteq> Inl SizeMismatch"
      unfolding 4[OF le]
      by (rule fft_transform_no_size_mismatch inverse_fft_transform_no_size_mismatch)+
  next
    assume l: "length a + 1 = m d"
    then have le: "length a \<le> m d" by simp
    show "fft d a = fft_transform d (a @ [0])"
      "inverse_fft d a = inverse_fft_transform d (a @ [0])"
      "fft d a = fft d (a @ [0])" "inverse_fft d a = inverse_fft d (a @ [0])"
      using 4[OF le] 6[OF le] 3[OF l] by simp_all
  qed
qed

text \<open>
  The size-8 domain, on a vector of length 9 and on one of length 7, where the value of
  \<open>fft\<close> is that of the transform on the padded vector.
\<close>

theorem size_rule_witness:
  "m d8 < length (replicate 9 (gf 1)) \<and>
   fft d8 (replicate 9 (gf 1)) = Inl SizeMismatch \<and>
   inverse_fft d8 (replicate 9 (gf 1)) = Inl SizeMismatch \<and>
   length [gf 1, gf 2, gf 3, gf 4, gf 5, gf 6, gf 7] + 1 = m d8 \<and>
   resize_to_m d8 [gf 1, gf 2, gf 3, gf 4, gf 5, gf 6, gf 7] =
     Inr [gf 1, gf 2, gf 3, gf 4, gf 5, gf 6, gf 7, gf 0] \<and>
   fft d8 [gf 1, gf 2, gf 3, gf 4, gf 5, gf 6, gf 7] =
     Inr [gf 28, gf 15, gf 4, gf 6, gf 14, gf 16, gf 16, gf 3] \<and>
   fft d8 [gf 1, gf 2, gf 3, gf 4, gf 5, gf 6, gf 7] =
     fft d8 [gf 1, gf 2, gf 3, gf 4, gf 5, gf 6, gf 7, gf 0] \<and>
   inverse_fft d8 [gf 1, gf 2, gf 3, gf 4, gf 5, gf 6, gf 7] =
     inverse_fft d8 [gf 1, gf 2, gf 3, gf 4, gf 5, gf 6, gf 7, gf 0]"
proof -
  let ?a = "[gf 1, gf 2, gf 3, gf 4, gf 5, gf 6, gf 7]"
  have p: "?a @ replicate (m d8 - length ?a) 0 =
      [gf 1, gf 2, gf 3, gf 4, gf 5, gf 6, gf 7, gf 0]"
    by (simp add: d8_def gf_zero)
  have l: "m d8 < length (replicate 9 (gf 1))" "length ?a + 1 = m d8" "length ?a \<le> m d8"
    by (simp_all add: d8_def)
  have a: "fft d8 (replicate 9 (gf 1)) = Inl SizeMismatch"
    "inverse_fft d8 (replicate 9 (gf 1)) = Inl SizeMismatch"
    using size_rule[of d8 "replicate 9 (gf 1)"] l(1) by blast+
  have b: "resize_to_m d8 ?a = Inr (?a @ replicate (m d8 - length ?a) 0)"
    "fft d8 ?a = fft_transform d8 (?a @ replicate (m d8 - length ?a) 0)"
    "fft d8 ?a = fft d8 (?a @ replicate (m d8 - length ?a) 0)"
    "inverse_fft d8 ?a = inverse_fft d8 (?a @ replicate (m d8 - length ?a) 0)"
    using size_rule[of d8 ?a] l(3) by blast+
  have c: "fft d8 ?a = Inr [gf 28, gf 15, gf 4, gf 6, gf 14, gf 16, gf 16, gf 3]"
    using b(2) fft_transform_8_padded unfolding p by (rule trans)
  show ?thesis
    using l(1,2) a b(1,3,4)[unfolded p] c by (intro conjI)
qed

subsection \<open>C9: the interpolation stub\<close>

text \<open>
  Claim C9: \<open>lagrange_interpolation\<close> returns the default-constructed polynomial for
  every list of points: the result does not depend on the points, and it evaluates to
  zero everywhere.
\<close>

theorem lagrange_interpolation_stub:
  "lagrange_interpolation points = polynomial_default \<and>
   lagrange_interpolation points = lagrange_interpolation points' \<and>
   evaluate_polynomial (lagrange_interpolation points) x = 0"
  by (simp add: lagrange_interpolation_def polynomial_default_def evaluate_polynomial_def)

subsection \<open>C10: get_domain_element beyond the domain\<close>

text \<open>
  Claim C10: \<open>get_domain_element\<close> is a total function; for every \<open>idx \<ge> small_m\<close>,
  also beyond \<open>m\<close>, it returns \<open>shift * omega ^ (idx - small_m)\<close>, which, \<open>omega\<close> being
  a root of unity of order \<open>small_m\<close>, is the coset point of index
  \<open>(idx - small_m) mod small_m\<close>.
\<close>

theorem get_domain_element_total:
  fixes d :: "'a::field extended_radix2"
  assumes "small_m d \<le> idx"
  shows "get_domain_element d idx = shift d * omega d ^ (idx - small_m d) \<and>
         (omega d ^ small_m d = 1 \<longrightarrow>
            get_domain_element d idx =
            shift d * omega d ^ ((idx - small_m d) mod small_m d))"
  using assms power_mod_order[of "omega d" "small_m d" "idx - small_m d"]
  by (simp add: get_domain_element_def)

text \<open>
  The size-8 domain at index 9: the point of index 5.
\<close>

theorem get_domain_element_total_witness:
  "small_m d8 \<le> 9 \<and> m d8 \<le> 9 \<and>
   get_domain_element d8 9 = gf 4 * gf 12 ^ 5 \<and>
   get_domain_element d8 9 = gf 4 * gf 12 ^ 1 \<and>
   get_domain_element d8 9 = get_domain_element d8 5"
proof -
  have le: "small_m d8 \<le> 9" by (simp add: d8_def)
  have w: "omega d8 ^ small_m d8 = 1" by (simp add: d8_def gf29_simps)
  show ?thesis
    using get_domain_element_total[OF le] w
    by (simp add: d8_def get_domain_element_def gf29_simps)
qed

end
